theory Spec2Isabelle
  imports Main "HOL-Library.AList"
begin

section \<open>Errors\<close>

text \<open>
  Go errors are values. The constructors below are the errors the modelled functions
  can hand back: the one \<^verbatim>\<open>DefaultProvider\<close> builds itself, the run-time panic of a
  nil pointer dereference, an error value received from a collaborator (plugin manager,
  persistence client, option, cleanup action), and the aggregate of
  \<^verbatim>\<open>go-multierror\<close>.
\<close>

datatype error =
    NoDefaultProvider
  | NilDereference
  | Failure string
  | MultiError "error list"

text \<open>
  \<^verbatim>\<open>multierror.Append(err, e)\<close> with a non-nil \<^verbatim>\<open>e\<close>: an aggregate on either side
  is flattened one level, anything else is kept as one entry.
\<close>

fun flatten1 :: "error \<Rightarrow> error list" where
  "flatten1 (MultiError es) = es"
| "flatten1 e = [e]"

definition multierror_Append :: "error option \<Rightarrow> error \<Rightarrow> error" where
  "multierror_Append err e =
     (case err of
        None \<Rightarrow> MultiError (flatten1 e)
      | Some (MultiError es) \<Rightarrow> MultiError (es @ flatten1 e)
      | Some x \<Rightarrow> MultiError (x # flatten1 e))"

section \<open>Protocol records\<close>

text \<open>
  The generated protocol structs, with the fields the modelled functions read. A pointer
  that the code tests against nil, or that a getter reads nil-safely, is an \<open>option\<close>.
\<close>

record Vagrantfile_Provider =
  Provider_Type :: string

record Vagrantfile_ConfigVM =
  Providers :: "Vagrantfile_Provider option list"

record Vagrantfile_MachineConfig =
  MachineConfig_Name :: string
  ConfigVm :: "Vagrantfile_ConfigVM option"

record Vagrantfile =
  Vagrantfile_Path :: string
  MachineConfigs :: "Vagrantfile_MachineConfig option list"

record Ref_Basis =
  Ref_Basis_ResourceId :: string
  Ref_Basis_Name :: string

record Ref_Project =
  Ref_Project_ResourceId :: string
  Ref_Project_Name :: string
  Ref_Project_Basis :: "Ref_Basis option"

record Ref_Target =
  Ref_Target_ResourceId :: string
  Ref_Target_Name :: string
  Ref_Target_Project :: "Ref_Project option"

text \<open>\<^verbatim>\<open>vagrant_server.Project\<close>: the Project's record as the server holds it.\<close>

record Server_Project =
  Project_ResourceId :: string
  Project_Name :: string
  Project_Path :: string
  Project_Basis :: "Ref_Basis option"
  Project_Targets :: "Ref_Target list"
  Configuration :: "Vagrantfile option"

text \<open>\<^verbatim>\<open>vagrant_server.Target\<close>: a Target's record.\<close>

record Server_Target =
  Target_ResourceId :: string
  Target_Name :: string
  Target_Provider :: string
  Target_Project :: "Ref_Project option"
  Target_Configuration :: "Vagrantfile_MachineConfig option"

text \<open>The nil-safe getters of the generated code.\<close>

definition GetConfiguration :: "Server_Project option \<Rightarrow> Vagrantfile option" where
  "GetConfiguration p = (case p of None \<Rightarrow> None | Some x \<Rightarrow> Configuration x)"

definition GetMachineConfigs :: "Vagrantfile option \<Rightarrow> Vagrantfile_MachineConfig option list" where
  "GetMachineConfigs v = (case v of None \<Rightarrow> [] | Some x \<Rightarrow> MachineConfigs x)"

definition GetName :: "Vagrantfile_MachineConfig option \<Rightarrow> string" where
  "GetName m = (case m of None \<Rightarrow> [] | Some x \<Rightarrow> MachineConfig_Name x)"

definition GetConfigVm :: "Vagrantfile_MachineConfig option \<Rightarrow> Vagrantfile_ConfigVM option" where
  "GetConfigVm m = (case m of None \<Rightarrow> None | Some x \<Rightarrow> ConfigVm x)"

definition GetProviders :: "Vagrantfile_ConfigVM option \<Rightarrow> Vagrantfile_Provider option list" where
  "GetProviders c = (case c of None \<Rightarrow> [] | Some x \<Rightarrow> Providers x)"

definition GetType :: "Vagrantfile_Provider option \<Rightarrow> string" where
  "GetType p = (case p of None \<Rightarrow> [] | Some x \<Rightarrow> Provider_Type x)"

section \<open>Collaborators\<close>

text \<open>
  The plugin manager and the persistence client are outside the repository. Each is a
  record of the operations the code calls. A Go result pair \<^verbatim>\<open>(value, error)\<close> of the
  plugin manager is a sum; a persistence call acts on the server's state \<open>'w\<close> and hands
  back the pair as it is, response and error each possibly nil.
\<close>

record PluginInfo =
  Plugin_Name :: string
  Plugin_Type :: string

text \<open>
  A fetched provider plugin: what its \<^verbatim>\<open>Usable()\<close> call returns. A plugin fetched
  under the kind \<open>provider\<close> is taken to implement the provider interface.
\<close>

record ProviderPlugin =
  Usable :: "error + bool"

record PluginManager =
  ListPlugins :: "string \<Rightarrow> error + PluginInfo list"
  GetPlugin :: "string \<Rightarrow> string \<Rightarrow> error + ProviderPlugin"

record UpsertProjectResponse =
  UpsertProjectResponse_Project :: "Server_Project option"

record FindProjectResponse =
  FindProjectResponse_Project :: "Server_Project option"

record 'w VagrantClient =
  UpsertProject :: "Server_Project option \<Rightarrow> 'w \<Rightarrow> (UpsertProjectResponse option \<times> error option) \<times> 'w"
  UpsertTarget :: "Server_Target \<Rightarrow> 'w \<Rightarrow> error option \<times> 'w"
  FindProject :: "Server_Project \<Rightarrow> 'w \<Rightarrow> (FindProjectResponse option \<times> error option) \<times> 'w"

text \<open>The two environment variables \<^verbatim>\<open>DefaultProvider\<close> reads; an unset one reads as the empty string.\<close>

record Env =
  VAGRANT_DEFAULT_PROVIDER :: string
  VAGRANT_PREFERRED_PROVIDERS :: string

text \<open>
  Modelled from the spec: \<^verbatim>\<open>core.DefaultProviderOptions\<close> and its \<^verbatim>\<open>IsExcluded\<close> are
  declared in the plugin SDK: an optional machine-name filter, a set of excluded provider
  names, a force-default flag and a check-usable flag; a provider is excluded when its name
  is in the set. The pointer to the options is taken to be non-nil.
\<close>

record DefaultProviderOptions =
  CheckUsable :: bool
  Exclude :: "string list"
  ForceDefault :: bool
  MachineName :: string

definition IsExcluded :: "DefaultProviderOptions \<Rightarrow> string \<Rightarrow> bool" where
  "IsExcluded opts name = (name \<in> set (Exclude opts))"

section \<open>Objects\<close>

text \<open>
  A Go map is an association list: \<^const>\<open>map_of\<close> reads a key, \<^const>\<open>AList.update\<close>
  writes one, \<^const>\<open>AList.delete\<close> removes one, and the order of the list stands for the
  order in which a \<^verbatim>\<open>range\<close> loop happens to visit the map, which Go leaves open; the
  theorems hold for every order. A pointer to a Target or a Basis is an index into the
  list of the objects allocated so far (the heap); allocation appends.
\<close>

type_synonym ref = nat

text \<open>
  The cleanup actions of a Basis: the two \<^verbatim>\<open>Factory.New\<close> attaches to a Basis it
  registers (removal from the registry, and closing the child plugin manager made for
  the given name), and any other, known by a label.
\<close>

datatype Basis_closer = Deregister | ClosePluginManager string | Cleanup string

text \<open>
  Modelled from the spec: the \<^verbatim>\<open>Basis\<close> struct and its methods are not among the
  sources. The fields are the ones the code here reads; \<open>Basis_Name\<close> is what
  \<^verbatim>\<open>Name()\<close> returns, and \<^verbatim>\<open>Closer\<close> appends to the ordered list of cleanup actions.
\<close>

record 'w Basis =
  Basis_Name :: string
  projects :: "(string \<times> ref) list"
  plugins :: PluginManager
  client :: "'w VagrantClient"
  Basis_closers :: "Basis_closer list"

definition Basis_Closer :: "Basis_closer \<Rightarrow> 'w Basis \<Rightarrow> 'w Basis" where
  "Basis_Closer c b = b\<lparr>Basis_closers := Basis_closers b @ [c]\<rparr>"

text \<open>
  Modelled from the spec: the \<^verbatim>\<open>Target\<close> struct and \<^verbatim>\<open>Target.Closer\<close> are not among
  the sources. The fields are the ones the code here reads: the record, the data
  directory (present or nil) and the ordered cleanup actions, to which \<^verbatim>\<open>Closer\<close>
  appends; a cleanup action is the close-time save or one registered by someone else.
\<close>

datatype Target_closer = SaveOnClose | Registered string

record Target =
  target :: "Server_Target option"
  Target_dir :: "string option"
  Target_closers :: "Target_closer list"

definition Target_Closer :: "Target_closer \<Rightarrow> Target \<Rightarrow> Target" where
  "Target_Closer c t = t\<lparr>Target_closers := Target_closers t @ [c]\<rparr>"

text \<open>
  The \<^verbatim>\<open>Project\<close> struct. \<open>dir\<close> is \<^verbatim>\<open>p.dir.Target\<close>, the data directory's lookup of
  a target's directory by name. A cleanup action is a function \<^verbatim>\<open>func() error\<close>: it acts
  on the world outside the Project and may fail. The Basis is held by value (the pointer
  is never nil). The Project's mutex is left out: the methods that take it call no other
  method that takes it, and every call is followed from the moment it holds the mutex.
\<close>

record 'w Project =
  project :: "Server_Project option"
  basis :: "'w Basis"
  targets :: "(string \<times> ref) list"
  dir :: "string \<Rightarrow> error + string"
  closers :: "('w \<Rightarrow> error option \<times> 'w) list"

section \<open>Project.DefaultProvider\<close>

text \<open>\<^verbatim>\<open>strings.Split(s, ",")\<close>: the pieces between the separators; one empty piece for the empty string.\<close>

fun Split :: "string \<Rightarrow> char \<Rightarrow> string list" where
  "Split [] sep = [[]]"
| "Split (c # cs) sep =
     (if c = sep then [] # Split cs sep
      else (case Split cs sep of [] \<Rightarrow> [[c]] | w # ws \<Rightarrow> (c # w) # ws))"

text \<open>
  \<^verbatim>\<open>strings.TrimSpace\<close> removes leading and trailing white space as Unicode defines it.
  A Go string is a sequence of bytes; the white-space runes are listed in their UTF-8
  encodings.
\<close>

definition space_runes :: "string list" where
  "space_runes =
     [[CHR 0x09], [CHR 0x0A], [CHR 0x0B], [CHR 0x0C], [CHR 0x0D], [CHR 0x20],
      [CHR 0xC2, CHR 0x85], [CHR 0xC2, CHR 0xA0], [CHR 0xE1, CHR 0x9A, CHR 0x80],
      [CHR 0xE2, CHR 0x80, CHR 0x80], [CHR 0xE2, CHR 0x80, CHR 0x81],
      [CHR 0xE2, CHR 0x80, CHR 0x82], [CHR 0xE2, CHR 0x80, CHR 0x83],
      [CHR 0xE2, CHR 0x80, CHR 0x84], [CHR 0xE2, CHR 0x80, CHR 0x85],
      [CHR 0xE2, CHR 0x80, CHR 0x86], [CHR 0xE2, CHR 0x80, CHR 0x87],
      [CHR 0xE2, CHR 0x80, CHR 0x88], [CHR 0xE2, CHR 0x80, CHR 0x89],
      [CHR 0xE2, CHR 0x80, CHR 0x8A], [CHR 0xE2, CHR 0x80, CHR 0xA8],
      [CHR 0xE2, CHR 0x80, CHR 0xA9], [CHR 0xE2, CHR 0x80, CHR 0xAF],
      [CHR 0xE2, CHR 0x81, CHR 0x9F], [CHR 0xE3, CHR 0x80, CHR 0x80]]"

text \<open>The number of bytes of the white-space rune a string starts with; 0 when it starts with none.\<close>

definition leading_space :: "string \<Rightarrow> nat" where
  "leading_space s =
     (case find (\<lambda>r. take (length r) s = r) space_runes of None \<Rightarrow> 0 | Some r \<Rightarrow> length r)"

lemma leading_space_le: "leading_space s \<le> length s"
proof (cases "find (\<lambda>r. take (length r) s = r) space_runes")
  case None
  then show ?thesis by (simp add: leading_space_def)
next
  case (Some r)
  then have "take (length r) s = r" by (auto simp: find_Some_iff)
  then have "length (take (length r) s) = length r" by simp
  then have "length r \<le> length s" by (simp add: min_def split: if_splits)
  with Some show ?thesis by (simp add: leading_space_def)
qed

function trim_left :: "string \<Rightarrow> string" where
  "trim_left s = (if leading_space s = 0 then s else trim_left (drop (leading_space s) s))"
  by pat_completeness auto
termination
proof (relation "measure length")
  show "wf (measure length)" by simp
next
  fix s :: string
  assume "leading_space s \<noteq> 0"
  with leading_space_le [of s] show "(drop (leading_space s) s, s) \<in> measure length"
    by simp
qed

declare trim_left.simps [simp del]

text \<open>Trailing white space is leading white space of the reversed bytes, each rune reversed.\<close>

definition trailing_space :: "string \<Rightarrow> nat" where
  "trailing_space s =
     (case find (\<lambda>r. take (length r) (rev s) = rev r) space_runes of None \<Rightarrow> 0 | Some r \<Rightarrow> length r)"

lemma trailing_space_le: "trailing_space s \<le> length s"
proof (cases "find (\<lambda>r. take (length r) (rev s) = rev r) space_runes")
  case None
  then show ?thesis by (simp add: trailing_space_def)
next
  case (Some r)
  then have "take (length r) (rev s) = rev r" by (auto simp: find_Some_iff)
  then have "length (take (length r) (rev s)) = length (rev r)" by simp
  then have "length r \<le> length s" by (simp add: min_def split: if_splits)
  with Some show ?thesis by (simp add: trailing_space_def)
qed

function trim_right :: "string \<Rightarrow> string" where
  "trim_right s =
     (if trailing_space s = 0 then s else trim_right (take (length s - trailing_space s) s))"
  by pat_completeness auto
termination
proof (relation "measure length")
  show "wf (measure length)" by simp
next
  fix s :: string
  assume "trailing_space s \<noteq> 0"
  with trailing_space_le [of s] show "(take (length s - trailing_space s) s, s) \<in> measure length"
    by simp
qed

declare trim_right.simps [simp del]

definition TrimSpace :: "string \<Rightarrow> string" where
  "TrimSpace s = trim_right (trim_left s)"

text \<open>
  The preferred providers: the variable split at commas, each piece trimmed, the empty
  ones dropped (the code compacts the slice in place, writing at an index that never
  passes the one it reads).
\<close>

definition preferredProviders :: "Env \<Rightarrow> string list" where
  "preferredProviders env =
     filter (\<lambda>spp. spp \<noteq> []) (map TrimSpace (Split (VAGRANT_PREFERRED_PROVIDERS env) CHR '',''))"

text \<open>The configured providers: the two nested loops over machine configurations and their providers.\<close>

fun providerTypes :: "Vagrantfile_Provider option list \<Rightarrow> string list \<Rightarrow> string list" where
  "providerTypes [] acc = acc"
| "providerTypes (p # ps) acc = providerTypes ps (acc @ [GetType p])"

fun configProviders_loop ::
  "DefaultProviderOptions \<Rightarrow> Vagrantfile_MachineConfig option list \<Rightarrow> string list \<Rightarrow> string list" where
  "configProviders_loop opts [] acc = acc"
| "configProviders_loop opts (m # ms) acc =
     (if MachineName opts \<noteq> [] \<and> MachineName opts \<noteq> GetName m
      then configProviders_loop opts ms acc
      else configProviders_loop opts ms (providerTypes (GetProviders (GetConfigVm m)) acc))"

definition configProviders :: "'w Project \<Rightarrow> DefaultProviderOptions \<Rightarrow> string list" where
  "configProviders p opts =
     configProviders_loop opts (GetMachineConfigs (GetConfiguration (project p))) []"

text \<open>The usable providers: the loop over the listed provider plugins; a failing fetch or usability check ends the call.\<close>

fun usableProviders_loop ::
  "PluginManager \<Rightarrow> DefaultProviderOptions \<Rightarrow> PluginInfo list \<Rightarrow> string list \<Rightarrow> error + string list" where
  "usableProviders_loop pm opts [] acc = Inr acc"
| "usableProviders_loop pm opts (pp # pps) acc =
     (if IsExcluded opts (Plugin_Name pp) then usableProviders_loop pm opts pps acc
      else if CheckUsable opts then
        (case GetPlugin pm (Plugin_Name pp) (Plugin_Type pp) of
           Inl err \<Rightarrow> Inl err
         | Inr plug \<Rightarrow>
             (case Usable plug of
                Inl err \<Rightarrow> Inl err
              | Inr usable \<Rightarrow>
                  if \<not> usable then usableProviders_loop pm opts pps acc
                  else usableProviders_loop pm opts pps (acc @ [Plugin_Name pp])))
      else usableProviders_loop pm opts pps (acc @ [Plugin_Name pp]))"

definition usableProviders :: "'w Project \<Rightarrow> DefaultProviderOptions \<Rightarrow> error + string list" where
  "usableProviders p opts =
     (case ListPlugins (plugins (basis p)) ''provider'' of
        Inl err \<Rightarrow> Inl err
      | Inr pluginProviders \<Rightarrow> usableProviders_loop (plugins (basis p)) opts pluginProviders [])"

text \<open>The search loops, each returning at its first hit.\<close>

fun default_in_usable :: "string \<Rightarrow> string list \<Rightarrow> string option" where
  "default_in_usable defaultProvider [] = None"
| "default_in_usable defaultProvider (u # us) =
     (if u = defaultProvider then Some u else default_in_usable defaultProvider us)"

fun preferred_hit :: "string \<Rightarrow> string list \<Rightarrow> string option" where
  "preferred_hit cp [] = None"
| "preferred_hit cp (pp # pps) = (if cp = pp then Some pp else preferred_hit cp pps)"

fun usable_preferred_hit :: "string \<Rightarrow> string list \<Rightarrow> string list \<Rightarrow> string option" where
  "usable_preferred_hit cp preferred [] = None"
| "usable_preferred_hit cp preferred (up # ups) =
     (if cp = up then
        (case preferred_hit cp preferred of
           Some pp \<Rightarrow> Some pp
         | None \<Rightarrow> usable_preferred_hit cp preferred ups)
      else usable_preferred_hit cp preferred ups)"

fun config_usable_preferred :: "string list \<Rightarrow> string list \<Rightarrow> string list \<Rightarrow> string option" where
  "config_usable_preferred [] usable preferred = None"
| "config_usable_preferred (cp # cps) usable preferred =
     (case usable_preferred_hit cp preferred usable of
        Some pp \<Rightarrow> Some pp
      | None \<Rightarrow> config_usable_preferred cps usable preferred)"

fun usable_hit :: "string \<Rightarrow> string list \<Rightarrow> string option" where
  "usable_hit x [] = None"
| "usable_hit x (up # ups) = (if x = up then Some x else usable_hit x ups)"

fun first_usable :: "string list \<Rightarrow> string list \<Rightarrow> string option" where
  "first_usable [] usable = None"
| "first_usable (x # xs) usable =
     (case usable_hit x usable of Some r \<Rightarrow> Some r | None \<Rightarrow> first_usable xs usable)"

definition DefaultProvider :: "Env \<Rightarrow> 'w Project \<Rightarrow> DefaultProviderOptions \<Rightarrow> error + string" where
  "DefaultProvider env p opts =
     (let defaultProvider = VAGRANT_DEFAULT_PROVIDER env in
      if defaultProvider \<noteq> [] \<and> ForceDefault opts then Inr defaultProvider
      else
        let configured = configProviders p opts in
        case usableProviders p opts of
          Inl err \<Rightarrow> Inl err
        | Inr usable \<Rightarrow>
            (case default_in_usable defaultProvider usable of
               Some u \<Rightarrow> Inr u
             | None \<Rightarrow>
                 let preferred = preferredProviders env in
                 (case config_usable_preferred configured usable preferred of
                    Some pp \<Rightarrow> Inr pp
                  | None \<Rightarrow>
                      (case first_usable configured usable of
                         Some cp \<Rightarrow> Inr cp
                       | None \<Rightarrow>
                           (case first_usable preferred usable of
                              Some pp \<Rightarrow> Inr pp
                            | None \<Rightarrow>
                                if length usable > 0 then Inr (usable ! 0)
                                else Inl NoDefaultProvider)))))"

text \<open>
  The tiers in the words of the specification: the environment default when it is in
  the usable list; else the first configured provider that is usable and preferred; else
  the first configured provider that is usable; else the first preferred provider that is
  usable; else the first usable provider; else the error.
\<close>

definition provider_tiers ::
  "string \<Rightarrow> string list \<Rightarrow> string list \<Rightarrow> string list \<Rightarrow> error + string" where
  "provider_tiers defaultProvider configured usable preferred =
     (if defaultProvider \<in> set usable then Inr defaultProvider
      else case find (\<lambda>cp. cp \<in> set usable \<and> cp \<in> set preferred) configured of
        Some cp \<Rightarrow> Inr cp
      | None \<Rightarrow>
          (case find (\<lambda>cp. cp \<in> set usable) configured of
             Some cp \<Rightarrow> Inr cp
           | None \<Rightarrow>
               (case find (\<lambda>pp. pp \<in> set usable) preferred of
                  Some pp \<Rightarrow> Inr pp
                | None \<Rightarrow>
                    (case usable of u # us \<Rightarrow> Inr u | [] \<Rightarrow> Inl NoDefaultProvider))))"

section \<open>Project: names, references, the persisted target list\<close>

text \<open>
  \<^verbatim>\<open>p.project\<close> is a pointer; reading a field through it when it is nil panics.
\<close>

definition Name :: "'w Project \<Rightarrow> error + string" where
  "Name p = (case project p of None \<Rightarrow> Inl NilDereference | Some r \<Rightarrow> Inr (Project_Name r))"

definition Ref :: "'w Project \<Rightarrow> error + Ref_Project" where
  "Ref p =
     (case project p of
        None \<Rightarrow> Inl NilDereference
      | Some r \<Rightarrow>
          Inr \<lparr>Ref_Project_ResourceId = Project_ResourceId r, Ref_Project_Name = Project_Name r,
               Ref_Project_Basis = Project_Basis r\<rparr>)"

fun TargetIds_loop :: "Ref_Target list \<Rightarrow> string list \<Rightarrow> string list" where
  "TargetIds_loop [] ids = ids"
| "TargetIds_loop (t # ts) ids = TargetIds_loop ts (ids @ [Ref_Target_ResourceId t])"

definition TargetIds :: "'w Project \<Rightarrow> error + string list" where
  "TargetIds p =
     (case project p of
        None \<Rightarrow> Inl NilDereference
      | Some r \<Rightarrow> Inr (TargetIds_loop (Project_Targets r) []))"

fun TargetNames_loop :: "Ref_Target list \<Rightarrow> string list \<Rightarrow> string list" where
  "TargetNames_loop [] names = names"
| "TargetNames_loop (t # ts) names = TargetNames_loop ts (names @ [Ref_Target_Name t])"

definition TargetNames :: "'w Project \<Rightarrow> error + string list" where
  "TargetNames p =
     (case project p of
        None \<Rightarrow> Inl NilDereference
      | Some r \<Rightarrow> Inr (TargetNames_loop (Project_Targets r) []))"

text \<open>
  The tests name their targets with \<^verbatim>\<open>fmt.Sprintf("id-%d", i)\<close> and
  \<^verbatim>\<open>fmt.Sprintf("target-%d", i)\<close>: the decimal digits of a number that is not negative.
\<close>

definition digit :: "nat \<Rightarrow> char" where
  "digit d = ''0123456789'' ! (d mod 10)"

function decimal :: "nat \<Rightarrow> string" where
  "decimal n = (if n < 10 then [digit n] else decimal (n div 10) @ [digit (n mod 10)])"
  by pat_completeness auto
termination
  by (relation "measure id") auto

declare decimal.simps [simp del]

definition test_ref :: "Ref_Project option \<Rightarrow> nat \<Rightarrow> Ref_Target" where
  "test_ref pr i =
     \<lparr>Ref_Target_ResourceId = ''id-'' @ decimal i, Ref_Target_Name = ''target-'' @ decimal i,
      Ref_Target_Project = pr\<rparr>"

section \<open>Project.Save, Project.refreshProject, Project.InitTargets\<close>

text \<open>
  A method with the result \<^verbatim>\<open>error\<close> returns \<open>None\<close> for nil; a panic is the error
  \<^const>\<open>NilDereference\<close>. Each returns the Project and the server's state as it leaves them.
\<close>

definition Save :: "'w Project \<Rightarrow> 'w \<Rightarrow> error option \<times> 'w Project \<times> 'w" where
  "Save p w =
     (case project p of
        None \<Rightarrow> (Some NilDereference, p, w)
      | Some r \<Rightarrow>
          (case UpsertProject (client (basis p)) (project p) w of
             ((result, err), w') \<Rightarrow>
               (case result of
                  None \<Rightarrow> (Some NilDereference, p, w')
                | Some res \<Rightarrow> (err, p\<lparr>project := UpsertProjectResponse_Project res\<rparr>, w'))))"

definition refreshProject :: "'w Project \<Rightarrow> 'w \<Rightarrow> error option \<times> 'w Project \<times> 'w" where
  "refreshProject p w =
     (case project p of
        None \<Rightarrow> (Some NilDereference, p, w)
      | Some r \<Rightarrow>
          (case FindProject (client (basis p))
                  \<lparr>Project_ResourceId = Project_ResourceId r, Project_Name = [], Project_Path = [],
                   Project_Basis = None, Project_Targets = [], Configuration = None\<rparr> w of
             ((result, err), w') \<Rightarrow>
               (case err of
                  Some e \<Rightarrow> (Some e, p, w')
                | None \<Rightarrow>
                    (case result of
                       None \<Rightarrow> (Some NilDereference, p, w')
                     | Some res \<Rightarrow> (None, p\<lparr>project := FindProjectResponse_Project res\<rparr>, w')))))"

text \<open>The Target record \<^verbatim>\<open>InitTargets\<close> upserts for one machine configuration.\<close>

definition target_request :: "Ref_Project \<Rightarrow> Vagrantfile_MachineConfig \<Rightarrow> Server_Target" where
  "target_request pr t =
     \<lparr>Target_ResourceId = [], Target_Name = MachineConfig_Name t, Target_Provider = [],
      Target_Project = Some pr, Target_Configuration = Some t\<rparr>"

text \<open>The loop over the machine configurations: the error of a failed upsert, the flag \<^verbatim>\<open>updated\<close>, the server's state.\<close>

fun InitTargets_loop ::
  "'w VagrantClient \<Rightarrow> Ref_Project \<Rightarrow> Vagrantfile_MachineConfig option list \<Rightarrow> bool \<Rightarrow> 'w \<Rightarrow>
   error option \<times> bool \<times> 'w" where
  "InitTargets_loop c pr [] updated w = (None, updated, w)"
| "InitTargets_loop c pr (None # ts) updated w = InitTargets_loop c pr ts updated w"
| "InitTargets_loop c pr (Some t # ts) updated w =
     (case UpsertTarget c (target_request pr t) w of
        (Some err, w') \<Rightarrow> (Some err, updated, w')
      | (None, w') \<Rightarrow> InitTargets_loop c pr ts True w')"

definition InitTargets :: "'w Project \<Rightarrow> 'w \<Rightarrow> error option \<times> 'w Project \<times> 'w" where
  "InitTargets p w =
     (case project p of
        None \<Rightarrow> (Some NilDereference, p, w)
      | Some r \<Rightarrow>
          (case Configuration r of
             None \<Rightarrow> (None, p, w)
           | Some cfg \<Rightarrow>
               (case InitTargets_loop (client (basis p))
                       \<lparr>Ref_Project_ResourceId = Project_ResourceId r,
                        Ref_Project_Name = Project_Name r, Ref_Project_Basis = Project_Basis r\<rparr>
                       (MachineConfigs cfg) False w of
                  (Some err, updated, w') \<Rightarrow> (Some err, p, w')
                | (None, updated, w') \<Rightarrow>
                    if updated then refreshProject p w' else (None, p, w'))))"

section \<open>Project.Close\<close>

text \<open>
  \<^verbatim>\<open>Target.Close\<close> is not among the sources: it is the parameter \<open>Target_Close\<close>, the
  effect of closing the Target behind a pointer and the error it returns.
\<close>

fun close_targets ::
  "(ref \<Rightarrow> 'w \<Rightarrow> error option \<times> 'w) \<Rightarrow> (string \<times> ref) list \<Rightarrow> error option \<Rightarrow> 'w \<Rightarrow>
   error option \<times> 'w" where
  "close_targets Target_Close [] err w = (err, w)"
| "close_targets Target_Close ((name, m) # ts) err w =
     (case Target_Close m w of
        (Some cerr, w') \<Rightarrow> close_targets Target_Close ts (Some (multierror_Append err cerr)) w'
      | (None, w') \<Rightarrow> close_targets Target_Close ts err w')"

fun run_closers :: "('w \<Rightarrow> error option \<times> 'w) list \<Rightarrow> error option \<Rightarrow> 'w \<Rightarrow> error option \<times> 'w" where
  "run_closers [] err w = (err, w)"
| "run_closers (f # fs) err w =
     (case f w of
        (Some cerr, w') \<Rightarrow> run_closers fs (Some (multierror_Append err cerr)) w'
      | (None, w') \<Rightarrow> run_closers fs err w')"

definition Close ::
  "(ref \<Rightarrow> 'w \<Rightarrow> error option \<times> 'w) \<Rightarrow> 'w Project \<Rightarrow> 'w \<Rightarrow> error option \<times> 'w Project \<times> 'w" where
  "Close Target_Close p w =
     (case close_targets Target_Close (targets p) None w of
        (err1, w1) \<Rightarrow>
          (case run_closers (closers p) err1 w1 of
             (err2, w2) \<Rightarrow>
               (case Name p of
                  Inl panic \<Rightarrow> (Some panic, p, w2)
                | Inr name \<Rightarrow>
                    (err2, p\<lparr>basis := (basis p)\<lparr>projects := AList.delete name (projects (basis p))\<rparr>\<rparr>, w2))))"

section \<open>Project.LoadTarget\<close>

text \<open>
  A \<^verbatim>\<open>TargetOption\<close> is a function \<^verbatim>\<open>func(t *Target) error\<close>: it acts on the shell it is
  given and on the world outside (the options of the repository resolve the target's
  record through the persistence client), and may fail.
\<close>

type_synonym 'w TargetOption = "Target \<Rightarrow> 'w \<Rightarrow> error option \<times> Target \<times> 'w"

text \<open>The shell \<^verbatim>\<open>LoadTarget\<close> starts from: no record, no data directory, no cleanup action.\<close>

definition new_shell :: Target where
  "new_shell = \<lparr>target = None, Target_dir = None, Target_closers = []\<rparr>"

text \<open>The loop applying the options: every option runs, the failures are aggregated.\<close>

fun apply_options ::
  "'w TargetOption list \<Rightarrow> error option \<Rightarrow> Target \<Rightarrow> 'w \<Rightarrow> error option \<times> Target \<times> 'w" where
  "apply_options [] err t w = (err, t, w)"
| "apply_options (opt # topts) err t w =
     (case opt t w of
        (Some oerr, t', w') \<Rightarrow> apply_options topts (Some (multierror_Append err oerr)) t' w'
      | (None, t', w') \<Rightarrow> apply_options topts err t' w')"

text \<open>
  The data directory step: a shell without one gets the directory for its record's name
  (a shell without a record panics there).
\<close>

definition ensure_dir :: "'w Project \<Rightarrow> Target \<Rightarrow> error + Target" where
  "ensure_dir p t =
     (case Target_dir t of
        Some d \<Rightarrow> Inr t
      | None \<Rightarrow>
          (case target t of
             None \<Rightarrow> Inl NilDereference
           | Some r \<Rightarrow>
               (case dir p (Target_Name r) of
                  Inl err \<Rightarrow> Inl err
                | Inr d \<Rightarrow> Inr (t\<lparr>Target_dir := Some d\<rparr>))))"

text \<open>
  \<^verbatim>\<open>LoadTarget\<close> returns the pointer or the error, the Project, the heap of the Targets
  registered so far and the world. The shell enters the heap when it is registered; a
  shell that is dropped is reachable from nowhere.
\<close>

definition LoadTarget ::
  "'w TargetOption list \<Rightarrow> 'w Project \<Rightarrow> Target list \<Rightarrow> 'w \<Rightarrow>
   (error + ref) \<times> 'w Project \<times> Target list \<times> 'w" where
  "LoadTarget topts p heap w =
     (case apply_options topts None new_shell w of
        (Some err, t, w') \<Rightarrow> (Inl err, p, heap, w')
      | (None, t, w') \<Rightarrow>
          (case ensure_dir p t of
             Inl err \<Rightarrow> (Inl err, p, heap, w')
           | Inr t' \<Rightarrow>
               (case target t' of
                  None \<Rightarrow> (Inl NilDereference, p, heap, w')
                | Some r \<Rightarrow>
                    (case map_of (targets p) (Target_ResourceId r) of
                       Some existing \<Rightarrow> (Inr existing, p, heap, w')
                     | None \<Rightarrow>
                         (Inr (length heap),
                          p\<lparr>targets := AList.update (Target_ResourceId r) (length heap) (targets p)\<rparr>,
                          heap @ [Target_Closer SaveOnClose t'],
                          w')))))"

section \<open>Project.Target\<close>

text \<open>
  Modelled from the spec: \<^verbatim>\<open>Target.State\<close>, \<^verbatim>\<open>WithTargetRef\<close> and \<^verbatim>\<open>WithProvider\<close>
  are not among the sources; they are the fields of the parameter \<open>api\<close>. \<open>State\<close> is
  the outcome of \<^verbatim>\<open>t.State()\<close>: an error, or whether the snapshot's \<^verbatim>\<open>IsActive()\<close> holds.
\<close>

record 'w Target_api =
  State :: "Target \<Rightarrow> error + bool"
  WithTargetRef :: "Ref_Target \<Rightarrow> 'w TargetOption"
  WithProvider :: "string \<Rightarrow> 'w TargetOption"

text \<open>
  The fallback scan over the loaded Targets. \<open>None\<close>: no loaded Target matched.
  Otherwise the pointer or the error, and the heap with the provider overwritten where
  the code overwrites it. A pointer outside the heap stands for nil.
\<close>

fun Target_scan ::
  "(Target \<Rightarrow> error + bool) \<Rightarrow> string \<Rightarrow> string \<Rightarrow> (string \<times> ref) list \<Rightarrow> Target list \<Rightarrow>
   ((error + ref) \<times> Target list) option" where
  "Target_scan state nameOrId provider [] heap = None"
| "Target_scan state nameOrId provider ((key, t) # ts) heap =
     (if \<not> t < length heap then Some (Inl NilDereference, heap)
      else case target (heap ! t) of
        None \<Rightarrow> Some (Inl NilDereference, heap)
      | Some r \<Rightarrow>
          if Target_Name r = nameOrId then
            (case state (heap ! t) of
               Inl err \<Rightarrow> Some (Inl err, heap)
             | Inr active \<Rightarrow>
                 if provider \<noteq> [] \<and> \<not> active
                 then Some (Inr t, heap[t := (heap ! t)\<lparr>target := Some (r\<lparr>Target_Provider := provider\<rparr>)\<rparr>])
                 else Some (Inr t, heap))
          else if Target_ResourceId r = nameOrId then Some (Inr t, heap)
          else Target_scan state nameOrId provider ts heap)"

definition Project_Target ::
  "'w Target_api \<Rightarrow> string \<Rightarrow> string \<Rightarrow> 'w Project \<Rightarrow> Target list \<Rightarrow> 'w \<Rightarrow>
   (error + ref) \<times> 'w Project \<times> Target list \<times> 'w" where
  "Project_Target api nameOrId provider p heap w =
     (case map_of (targets p) nameOrId of
        Some t \<Rightarrow> (Inr t, p, heap, w)
      | None \<Rightarrow>
          (case Target_scan (State api) nameOrId provider (targets p) heap of
             Some (res, heap') \<Rightarrow> (res, p, heap', w)
           | None \<Rightarrow>
               (case Ref p of
                  Inl panic \<Rightarrow> (Inl panic, p, heap, w)
                | Inr pr \<Rightarrow>
                    LoadTarget
                      [WithTargetRef api
                         \<lparr>Ref_Target_ResourceId = nameOrId, Ref_Target_Name = nameOrId,
                          Ref_Target_Project = Some pr\<rparr>,
                       WithProvider api provider]
                      p heap w)))"

section \<open>Factory.New\<close>

text \<open>
  The \<^verbatim>\<open>Factory\<close> struct: the mutex \<open>m\<close> (held or free), the registry, and, of the
  plugin manager, the child scopes \<^verbatim>\<open>Sub\<close> has made so far, by name.
\<close>

record Factory =
  m :: bool
  subs :: "string list"
  registered :: "(string \<times> ref) list"

definition NewFactory :: Factory where
  "NewFactory = \<lparr>m = False, subs = [], registered = []\<rparr>"

text \<open>
  \<^verbatim>\<open>NewBasis\<close> and \<^verbatim>\<open>Basis.Close\<close> are not among the sources; they are the parameters
  \<open>NewBasis\<close> and \<open>Basis_Close\<close>. Construction is given what the code hands it: the
  caller's options, the Factory itself (\<^verbatim>\<open>WithFactory(f)\<close>, in the state it has at that
  moment) and the child plugin manager made for the name (\<^verbatim>\<open>FromBasis\<close>); it acts on the
  world and returns the candidate or an error. The error of the candidate's
  \<^verbatim>\<open>Close\<close> is dropped by the code.

  \<^verbatim>\<open>f.m.Lock()\<close> waits while the mutex is held: a call that finds it held does not
  return, which is the result \<open>None\<close>. The deferred \<^verbatim>\<open>Unlock\<close> frees it on every return.
\<close>

definition New ::
  "('o list \<Rightarrow> Factory \<Rightarrow> string \<Rightarrow> 'w \<Rightarrow> (error + 'w Basis) \<times> 'w) \<Rightarrow> ('w Basis \<Rightarrow> 'w \<Rightarrow> 'w) \<Rightarrow>
   string \<Rightarrow> 'o list \<Rightarrow> Factory \<Rightarrow> 'w Basis list \<Rightarrow> 'w \<Rightarrow>
   ((error + ref) \<times> Factory \<times> 'w Basis list \<times> 'w) option" where
  "New NewBasis Basis_Close name opts f heap w =
     (if m f then None
      else
        let f1 = f\<lparr>m := True\<rparr> in
        case (if name \<noteq> [] then map_of (registered f1) name else None) of
          Some b \<Rightarrow> Some (Inr b, f1\<lparr>m := False\<rparr>, heap, w)
        | None \<Rightarrow>
            let f2 = f1\<lparr>subs := subs f1 @ [name]\<rparr> in
            (case NewBasis opts f2 name w of
               (Inl err, w') \<Rightarrow> Some (Inl err, f2\<lparr>m := False\<rparr>, heap, w')
             | (Inr b, w') \<Rightarrow>
                 (case map_of (registered f2) (Basis_Name b) of
                    Some existingB \<Rightarrow> Some (Inr existingB, f2\<lparr>m := False\<rparr>, heap, Basis_Close b w')
                  | None \<Rightarrow>
                      Some (Inr (length heap),
                            f2\<lparr>registered := AList.update (Basis_Name b) (length heap) (registered f2),
                               m := False\<rparr>,
                            heap @ [Basis_Closer (ClosePluginManager name) (Basis_Closer Deregister b)],
                            w'))))"

section \<open>Teardown in the words of the specification\<close>

text \<open>
  The specification's teardown: every action is attempted in order, whatever the ones
  before it returned, and every failure is collected. \<open>run_all\<close> gives what each action
  returned; \<open>failures\<close> are the individual errors among them (an aggregate counts for
  its entries); \<open>aggregate\<close> is nil when nothing failed and the aggregate of the failures
  otherwise.
\<close>

fun run_all :: "('w \<Rightarrow> error option \<times> 'w) list \<Rightarrow> 'w \<Rightarrow> error option list \<times> 'w" where
  "run_all [] w = ([], w)"
| "run_all (f # fs) w =
     (case f w of (e, w') \<Rightarrow> (case run_all fs w' of (es, w'') \<Rightarrow> (e # es, w'')))"

definition failures :: "error option list \<Rightarrow> error list" where
  "failures es = concat (map flatten1 (List.map_filter (\<lambda>e. e) es))"

definition aggregate :: "error option list \<Rightarrow> error option" where
  "aggregate es =
     (if List.map_filter (\<lambda>e. e) es = [] then None else Some (MultiError (failures es)))"

section \<open>Resolution and matching\<close>


text \<open>An entry of the target map that the fallback scan passes over: a Target with a record whose name and resource id both differ from the string looked up.\<close>

definition no_match :: "string \<Rightarrow> Target list \<Rightarrow> string \<times> ref \<Rightarrow> bool" where
  "no_match nameOrId heap e =
     (snd e < length heap \<and>
      (case target (heap ! snd e) of
         None \<Rightarrow> False
       | Some r \<Rightarrow> Target_Name r \<noteq> nameOrId \<and> Target_ResourceId r \<noteq> nameOrId))"

section \<open>The usable providers in the words of the specification\<close>

text \<open>
  A listed provider plugin that stays in the usable list: it is not excluded and, when
  usability is checked, it can be fetched and reports that it is usable.
\<close>

definition usable_plugin :: "PluginManager \<Rightarrow> DefaultProviderOptions \<Rightarrow> PluginInfo \<Rightarrow> bool" where
  "usable_plugin pm opts pp =
     (if IsExcluded opts (Plugin_Name pp) then False
      else if CheckUsable opts then
        (case GetPlugin pm (Plugin_Name pp) (Plugin_Type pp) of
           Inl err \<Rightarrow> False
         | Inr plug \<Rightarrow> Usable plug = Inr True)
      else True)"

section \<open>Reading a decimal numeral\<close>

text \<open>The number a string of decimal digits denotes; it reads back what \<open>decimal\<close> writes, so different numbers have different numerals.\<close>

definition number :: "string \<Rightarrow> nat" where
  "number s = foldl (\<lambda>a c. 10 * a + (of_char c - 48)) 0 s"

section \<open>The provider lists in the words of the specification\<close>

text \<open>
  The pieces of a comma-separated list, joined again with the separator between them.
\<close>

fun join :: "char \<Rightarrow> string list \<Rightarrow> string" where
  "join c [] = []"
| "join c [x] = x"
| "join c (x # y # ys) = x @ c # join c (y # ys)"

text \<open>
  What the specification asks of one installed provider plugin: an excluded plugin is
  left out; with the usability check the plugin is loaded and is kept exactly when its
  check succeeds, and a failure to load or to check is an error; without the check it
  is kept. The usable list is the names of the plugins kept, in listing order, unless
  one of them gives an error, and then the call ends with the first such error.
\<close>

definition plugin_check :: "PluginManager \<Rightarrow> DefaultProviderOptions \<Rightarrow> PluginInfo \<Rightarrow> error + bool" where
  "plugin_check pm opts pp =
     (if IsExcluded opts (Plugin_Name pp) then Inr False
      else if CheckUsable opts then
        (case GetPlugin pm (Plugin_Name pp) (Plugin_Type pp) of
           Inl err \<Rightarrow> Inl err
         | Inr plug \<Rightarrow> Usable plug)
      else Inr True)"

definition usable_list :: "PluginManager \<Rightarrow> DefaultProviderOptions \<Rightarrow> PluginInfo list \<Rightarrow> error + string list" where
  "usable_list pm opts pps =
     (case find isl (map (plugin_check pm opts) pps) of
        Some (Inl err) \<Rightarrow> Inl err
      | _ \<Rightarrow> Inr (map Plugin_Name (filter (\<lambda>pp. plugin_check pm opts pp = Inr True) pps)))"

section \<open>Initialisation in the words of the specification\<close>

text \<open>
  The upserts of a list of machine configurations, one Target record each (the name of
  the configuration, the reference of the Project, the configuration itself), in order:
  the server's state after them when all of them succeed, \<open>None\<close> when one fails.
\<close>

fun all_upserted ::
  "'w VagrantClient \<Rightarrow> Ref_Project \<Rightarrow> Vagrantfile_MachineConfig list \<Rightarrow> 'w \<Rightarrow> 'w option" where
  "all_upserted c pr [] w = Some w"
| "all_upserted c pr (t # ts) w =
     (case UpsertTarget c
             \<lparr>Target_ResourceId = [], Target_Name = MachineConfig_Name t, Target_Provider = [],
              Target_Project = Some pr, Target_Configuration = Some t\<rparr> w of
        (None, w') \<Rightarrow> all_upserted c pr ts w'
      | (Some err, w') \<Rightarrow> None)"

section \<open>Concrete objects\<close>

text \<open>
  The objects the theorems are evaluated at. The world is the log of the calls the
  persistence client has received; an upsert of the target named \<open>broken\<close> fails.
\<close>

definition example_client :: "string list VagrantClient" where
  "example_client =
     \<lparr>UpsertProject = (\<lambda>p w. ((Some \<lparr>UpsertProjectResponse_Project = p\<rparr>, None), w @ [''UpsertProject''])),
      UpsertTarget = (\<lambda>t w. (if Target_Name t = ''broken'' then Some (Failure ''upsert failed'') else None,
                              w @ [''UpsertTarget '' @ Target_Name t])),
      FindProject = (\<lambda>q w. ((Some \<lparr>FindProjectResponse_Project = Some (q\<lparr>Project_Name := ''refreshed''\<rparr>)\<rparr>, None),
                             w @ [''FindProject'']))\<rparr>"

text \<open>A client whose project upsert fails the way the generated client does: no response, an error.\<close>

definition failing_client :: "string list VagrantClient" where
  "failing_client =
     example_client\<lparr>UpsertProject := (\<lambda>p w. ((None, Some (Failure ''unavailable'')), w @ [''UpsertProject'']))\<rparr>"

definition example_plugins :: "string list \<Rightarrow> PluginManager" where
  "example_plugins names =
     \<lparr>ListPlugins = (\<lambda>kind. Inr (map (\<lambda>n. \<lparr>Plugin_Name = n, Plugin_Type = kind\<rparr>) names)),
      GetPlugin = (\<lambda>n kind. Inr \<lparr>Usable = Inr True\<rparr>)\<rparr>"

definition example_basis :: "string list \<Rightarrow> string list Basis" where
  "example_basis names =
     \<lparr>Basis_Name = ''basis'', projects = [(''proj'', 0)], plugins = example_plugins names,
      client = example_client, Basis_closers = []\<rparr>"

text \<open>A project record with one machine configuration per given name, each declaring the given providers.\<close>

definition example_record :: "string list \<Rightarrow> string list \<Rightarrow> Server_Project" where
  "example_record machines provs =
     \<lparr>Project_ResourceId = ''proj-id'', Project_Name = ''proj'', Project_Path = ''/proj'',
      Project_Basis = None, Project_Targets = [],
      Configuration = Some \<lparr>Vagrantfile_Path = ''/proj/Vagrantfile'',
        MachineConfigs = map (\<lambda>n. Some \<lparr>MachineConfig_Name = n,
          ConfigVm = Some \<lparr>Providers = map (\<lambda>t. Some \<lparr>Provider_Type = t\<rparr>) provs\<rparr>\<rparr>) machines\<rparr>\<rparr>"

definition example_project :: "string list \<Rightarrow> string list \<Rightarrow> string list \<Rightarrow> string list Project" where
  "example_project machines provs names =
     \<lparr>project = Some (example_record machines provs), basis = example_basis names, targets = [],
      dir = (\<lambda>n. Inr (''/data/'' @ n)), closers = []\<rparr>"

definition example_opts :: DefaultProviderOptions where
  "example_opts = \<lparr>CheckUsable = False, Exclude = [], ForceDefault = False, MachineName = []\<rparr>"

definition example_env :: Env where
  "example_env = \<lparr>VAGRANT_DEFAULT_PROVIDER = [], VAGRANT_PREFERRED_PROVIDERS = []\<rparr>"

text \<open>A Project with three loaded Targets and two cleanup actions; closing the second Target fails, and so does the first action.\<close>

definition example_Target_Close :: "ref \<Rightarrow> string list \<Rightarrow> error option \<times> string list" where
  "example_Target_Close t w =
     (if t = 1 then Some (Failure ''target close failed'') else None, w @ [''Target.Close '' @ decimal t])"

definition closing_project :: "string list Project" where
  "closing_project =
     (example_project [] [] [])
       \<lparr>targets := [(''id-0'', 0), (''id-1'', 1), (''id-2'', 2)],
        closers := [(\<lambda>w. (Some (Failure ''first closer failed''), w @ [''first closer''])),
                    (\<lambda>w. (None, w @ [''second closer'']))]\<rparr>"

text \<open>An option that resolves the record of the named target through the persistence client, and the Targets it leads to.\<close>

definition example_WithTargetRef :: "string \<Rightarrow> string list TargetOption" where
  "example_WithTargetRef name t w =
     (None,
      t\<lparr>target := Some \<lparr>Target_ResourceId = ''id-'' @ name, Target_Name = name, Target_Provider = [],
                         Target_Project = None, Target_Configuration = None\<rparr>\<rparr>,
      w @ [''FindTarget '' @ name])"

definition loaded_one :: Target where
  "loaded_one =
     \<lparr>target = Some \<lparr>Target_ResourceId = ''id-one'', Target_Name = ''one'', Target_Provider = [],
                     Target_Project = None, Target_Configuration = None\<rparr>,
      Target_dir = Some ''/data/one'', Target_closers = [SaveOnClose]\<rparr>"

text \<open>The Target named \<open>one\<close> is active, the others are not; two Targets are loaded.\<close>

definition example_api :: "string list Target_api" where
  "example_api =
     \<lparr>State = (\<lambda>t. case target t of None \<Rightarrow> Inl NilDereference | Some r \<Rightarrow> Inr (Target_Name r = ''one'')),
      WithTargetRef = (\<lambda>ref. example_WithTargetRef (Ref_Target_Name ref)),
      WithProvider = (\<lambda>provider t w. (None, t, w))\<rparr>"

definition loaded_two :: Target where
  "loaded_two =
     \<lparr>target = Some \<lparr>Target_ResourceId = ''id-two'', Target_Name = ''two'', Target_Provider = [],
                     Target_Project = None, Target_Configuration = None\<rparr>,
      Target_dir = Some ''/data/two'', Target_closers = [SaveOnClose]\<rparr>"

definition loaded_project :: "string list Project" where
  "loaded_project = (example_project [] [] [])\<lparr>targets := [(''id-one'', 0), (''id-two'', 1)]\<rparr>"

text \<open>A construction that fails on the option \<open>invalid\<close> and resolves the empty name to \<open>default\<close>; a Factory with \<open>default\<close> registered; a construction that reports whether it runs with the mutex held.\<close>

definition example_NewBasis ::
  "string list \<Rightarrow> Factory \<Rightarrow> string \<Rightarrow> string list \<Rightarrow> (error + string list Basis) \<times> string list" where
  "example_NewBasis opts f name w =
     (if ''invalid'' \<in> set opts then (Inl (Failure ''invalid option''), w @ [''NewBasis''])
      else (Inr ((example_basis [])\<lparr>Basis_Name := (if name = [] then ''default'' else name), projects := []\<rparr>),
            w @ [''NewBasis'']))"

definition example_Basis_Close :: "string list Basis \<Rightarrow> string list \<Rightarrow> string list" where
  "example_Basis_Close b w = w @ [''Basis.Close '' @ Basis_Name b]"

definition example_factory :: Factory where
  "example_factory = \<lparr>m = False, subs = [''default''], registered = [(''default'', 0)]\<rparr>"

definition lock_probe ::
  "string list \<Rightarrow> Factory \<Rightarrow> string \<Rightarrow> string list \<Rightarrow> (error + string list Basis) \<times> string list" where
  "lock_probe opts f name w = (Inl (Failure (if m f then ''lock held'' else ''lock free'')), w)"

text \<open>
  A plugin manager that lists four providers, of which \<open>docker\<close> reports that it is not
  usable; a Project on it that configures \<open>vmware\<close> and then \<open>virtualbox\<close>; options that
  exclude \<open>hyperv\<close> and ask for the usability check; and an environment whose preferred
  providers are written with blanks and an empty entry.
\<close>

definition checked_plugins :: PluginManager where
  "checked_plugins =
     \<lparr>ListPlugins = (\<lambda>kind. Inr (map (\<lambda>n. \<lparr>Plugin_Name = n, Plugin_Type = kind\<rparr>)
                                   [''hyperv'', ''docker'', ''virtualbox'', ''vmware''])),
      GetPlugin = (\<lambda>n kind. Inr \<lparr>Usable = Inr (n \<noteq> ''docker'')\<rparr>)\<rparr>"

definition checked_project :: "string list Project" where
  "checked_project =
     (example_project [''default''] [''vmware'', ''virtualbox''] [])
       \<lparr>basis := (example_basis [])\<lparr>plugins := checked_plugins\<rparr>\<rparr>"

definition checked_opts :: DefaultProviderOptions where
  "checked_opts = \<lparr>CheckUsable = True, Exclude = [''hyperv''], ForceDefault = False, MachineName = []\<rparr>"

definition spaced_env :: Env where
  "spaced_env = \<lparr>VAGRANT_DEFAULT_PROVIDER = [], VAGRANT_PREFERRED_PROVIDERS = '' virtualbox , ,hyperv''\<rparr>"

section \<open>The default provider\<close>

lemma default_in_usable_eq:
  "default_in_usable d us = (if d \<in> set us then Some d else None)"
  by (induction us) auto

lemma preferred_hit_eq:
  "preferred_hit cp pps = (if cp \<in> set pps then Some cp else None)"
  by (induction pps) auto

lemma usable_preferred_hit_eq:
  "usable_preferred_hit cp pps ups = (if cp \<in> set ups \<and> cp \<in> set pps then Some cp else None)"
  by (induction ups) (auto simp: preferred_hit_eq)

lemma config_usable_preferred_eq:
  "config_usable_preferred cps ups pps = find (\<lambda>cp. cp \<in> set ups \<and> cp \<in> set pps) cps"
  by (induction cps) (auto simp: usable_preferred_hit_eq)

lemma usable_hit_eq:
  "usable_hit x ups = (if x \<in> set ups then Some x else None)"
  by (induction ups) auto

lemma first_usable_eq:
  "first_usable xs ups = find (\<lambda>x. x \<in> set ups) xs"
  by (induction xs) (auto simp: usable_hit_eq)

lemma providerTypes_eq: "providerTypes ps acc = acc @ map GetType ps"
  by (induction ps arbitrary: acc) auto

text \<open>The configured providers are the declared provider types in declaration order, machine by machine.\<close>

lemma configProviders_loop_eq:
  "configProviders_loop opts ms acc =
     acc @ concat (map (\<lambda>m. if MachineName opts \<noteq> [] \<and> MachineName opts \<noteq> GetName m then []
                             else map GetType (GetProviders (GetConfigVm m))) ms)"
  by (induction ms arbitrary: acc) (auto simp: providerTypes_eq)

text \<open>Without the usability check the usable providers are the listed names, in listing order, that are not excluded.\<close>

lemma usableProviders_loop_unchecked:
  "\<not> CheckUsable opts \<Longrightarrow>
   usableProviders_loop pm opts pps acc =
     Inr (acc @ filter (\<lambda>n. \<not> IsExcluded opts n) (map Plugin_Name pps))"
  by (induction pps arbitrary: acc) auto

lemma TrimSpace_Nil: "TrimSpace [] = []"
  by (simp add: TrimSpace_def trim_left.simps [of "[]"] trim_right.simps [of "[]"]
      leading_space_def trailing_space_def space_runes_def)

text \<open>When the usable providers can be collected, they are the names of the listed plugins that stay, in listing order.\<close>

lemma usableProviders_loop_Inr:
  "usableProviders_loop pm opts pps acc = Inr us \<Longrightarrow>
   us = acc @ map Plugin_Name (filter (usable_plugin pm opts) pps)"
proof (induction pps arbitrary: acc)
  case Nil
  then show ?case by simp
next
  case (Cons pp pps)
  show ?case
  proof (cases "usable_plugin pm opts pp")
    case True
    then have "usableProviders_loop pm opts (pp # pps) acc =
        usableProviders_loop pm opts pps (acc @ [Plugin_Name pp])"
      by (auto simp: usable_plugin_def split: if_splits sum.splits)
    with Cons.prems have "usableProviders_loop pm opts pps (acc @ [Plugin_Name pp]) = Inr us"
      by simp
    from Cons.IH [OF this] True show ?thesis by simp
  next
    case False
    with Cons.prems have "usableProviders_loop pm opts pps acc = Inr us"
      by (auto simp: usable_plugin_def split: if_splits sum.splits)
    from Cons.IH [OF this] False show ?thesis by simp
  qed
qed

lemma DefaultProvider_unforced:
  assumes "\<not> (VAGRANT_DEFAULT_PROVIDER env \<noteq> [] \<and> ForceDefault opts)"
  shows "DefaultProvider env p opts =
     (case usableProviders p opts of
        Inl err \<Rightarrow> Inl err
      | Inr usable \<Rightarrow>
          provider_tiers (VAGRANT_DEFAULT_PROVIDER env) (configProviders p opts) usable
            (preferredProviders env))"
proof (cases "usableProviders p opts")
  case (Inl err)
  with assms show ?thesis by (simp add: DefaultProvider_def Let_def)
next
  case (Inr usable)
  have "usable \<noteq> [] \<Longrightarrow> usable ! 0 = hd usable" by (simp add: hd_conv_nth)
  then show ?thesis
    using assms Inr
    by (cases usable)
      (auto simp: DefaultProvider_def provider_tiers_def Let_def default_in_usable_eq
        config_usable_preferred_eq first_usable_eq split: option.splits)
qed

lemma usable_list_Nil: "usable_list pm opts [] = Inr []"
  by (simp add: usable_list_def)

lemma usable_list_Cons:
  "usable_list pm opts (pp # pps) =
     (case plugin_check pm opts pp of
        Inl err \<Rightarrow> Inl err
      | Inr keep \<Rightarrow>
          (case usable_list pm opts pps of
             Inl err \<Rightarrow> Inl err
           | Inr us \<Rightarrow> Inr (if keep then Plugin_Name pp # us else us)))"
proof (cases "plugin_check pm opts pp")
  case (Inl err)
  then show ?thesis by (simp add: usable_list_def)
next
  case (Inr keep)
  show ?thesis
  proof (cases "find isl (map (plugin_check pm opts) pps)")
    case None
    with Inr show ?thesis by (simp add: usable_list_def)
  next
    case (Some x)
    then have "isl x" by (auto simp: find_Some_iff)
    then obtain err where "x = Inl err" by (cases x) auto
    with Some Inr show ?thesis by (simp add: usable_list_def)
  qed
qed

lemma usableProviders_loop_usable_list:
  "usableProviders_loop pm opts pps acc =
     (case usable_list pm opts pps of Inl err \<Rightarrow> Inl err | Inr us \<Rightarrow> Inr (acc @ us))"
proof (induction pps arbitrary: acc)
  case Nil
  then show ?case by (simp add: usable_list_Nil)
next
  case (Cons pp pps)
  show ?case
  proof (cases "IsExcluded opts (Plugin_Name pp)")
    case True
    then have "plugin_check pm opts pp = Inr False" by (simp add: plugin_check_def)
    with True Cons [of acc] show ?thesis
      by (simp add: usable_list_Cons split: sum.splits)
  next
    case notex: False
    show ?thesis
    proof (cases "CheckUsable opts")
      case False
      with notex have "plugin_check pm opts pp = Inr True" by (simp add: plugin_check_def)
      with notex False Cons [of "acc @ [Plugin_Name pp]"] show ?thesis
        by (simp add: usable_list_Cons split: sum.splits)
    next
      case check: True
      show ?thesis
      proof (cases "GetPlugin pm (Plugin_Name pp) (Plugin_Type pp)")
        case (Inl err)
        with notex check have "plugin_check pm opts pp = Inl err" by (simp add: plugin_check_def)
        with notex check Inl show ?thesis by (simp add: usable_list_Cons)
      next
        case (Inr plug)
        show ?thesis
        proof (cases "Usable plug")
          case (Inl err)
          with notex check Inr have "plugin_check pm opts pp = Inl err"
            by (simp add: plugin_check_def)
          with notex check Inr Inl show ?thesis by (simp add: usable_list_Cons)
        next
          case u: (Inr usable)
          with notex check Inr have pc: "plugin_check pm opts pp = Inr usable"
            by (simp add: plugin_check_def)
          show ?thesis
          proof (cases usable)
            case True
            with pc notex check Inr u Cons [of "acc @ [Plugin_Name pp]"] show ?thesis
              by (simp add: usable_list_Cons split: sum.splits)
          next
            case False
            with pc notex check Inr u Cons [of acc] show ?thesis
              by (simp add: usable_list_Cons split: sum.splits)
          qed
        qed
      qed
    qed
  qed
qed

lemma usableProviders_usable_list:
  "usableProviders p opts =
     (case ListPlugins (plugins (basis p)) ''provider'' of
        Inl err \<Rightarrow> Inl err
      | Inr pps \<Rightarrow> usable_list (plugins (basis p)) opts pps)"
  by (simp add: usableProviders_def usableProviders_loop_usable_list split: sum.splits)

lemma usable_list_unchecked:
  "\<not> CheckUsable opts \<Longrightarrow>
   usable_list pm opts pps = Inr (filter (\<lambda>n. n \<notin> set (Exclude opts)) (map Plugin_Name pps))"
  by (induction pps) (simp_all add: usable_list_Nil usable_list_Cons plugin_check_def IsExcluded_def)

lemma Split_nonempty: "Split s c \<noteq> []"
  by (cases s) (auto split: list.splits)

lemma join_Cons_Cons: "join c ((a # w) # ws) = a # join c (w # ws)"
  by (cases ws) auto

lemma join_Split: "join c (Split s c) = s"
proof (induction s)
  case Nil
  then show ?case by simp
next
  case (Cons a s)
  obtain w ws where sp: "Split s c = w # ws" using Split_nonempty [of s c] by (cases "Split s c") auto
  show ?case
  proof (cases "a = c")
    case True
    with sp Cons show ?thesis by simp
  next
    case False
    with sp Cons show ?thesis by (simp add: join_Cons_Cons)
  qed
qed

lemma Split_no_sep: "piece \<in> set (Split s c) \<Longrightarrow> c \<notin> set piece"
proof (induction s arbitrary: piece)
  case Nil
  then show ?case by simp
next
  case (Cons a s)
  obtain w ws where sp: "Split s c = w # ws" using Split_nonempty [of s c] by (cases "Split s c") auto
  show ?case
  proof (cases "a = c")
    case True
    with Cons show ?thesis by auto
  next
    case False
    with sp Cons.prems have "piece = a # w \<or> piece \<in> set ws" by auto
    with False sp Cons.IH [of w] Cons.IH [of piece] show ?thesis by auto
  qed
qed

lemma space_runes_nonempty: "r \<in> set space_runes \<Longrightarrow> r \<noteq> []"
  by (auto simp: space_runes_def)

lemma take_prefix_iff: "take (length r) s = r \<longleftrightarrow> (\<exists>x. s = r @ x)"
proof
  assume "take (length r) s = r"
  then have "s = r @ drop (length r) s" by (metis append_take_drop_id)
  then show "\<exists>x. s = r @ x" ..
next
  assume "\<exists>x. s = r @ x"
  then show "take (length r) s = r" by auto
qed

lemma take_rev_suffix_iff: "take (length r) (rev s) = rev r \<longleftrightarrow> (\<exists>x. s = x @ r)"
proof -
  have "take (length r) (rev s) = rev r \<longleftrightarrow> (\<exists>y. rev s = rev r @ y)"
    using take_prefix_iff [of "rev r" "rev s"] by simp
  also have "\<dots> \<longleftrightarrow> (\<exists>x. s = x @ r)"
  proof
    assume "\<exists>y. rev s = rev r @ y"
    then obtain y where "rev s = rev r @ y" ..
    then have "rev (rev s) = rev (rev r @ y)" by simp
    then have "s = rev y @ r" by simp
    then show "\<exists>x. s = x @ r" ..
  next
    assume "\<exists>x. s = x @ r"
    then obtain x where "s = x @ r" ..
    then have "rev s = rev r @ rev x" by simp
    then show "\<exists>y. rev s = rev r @ y" ..
  qed
  finally show ?thesis .
qed

lemma leading_space_0_iff:
  "leading_space s = 0 \<longleftrightarrow> (\<forall>r \<in> set space_runes. \<not> (\<exists>x. s = r @ x))"
proof (cases "find (\<lambda>r. take (length r) s = r) space_runes")
  case None
  then have z: "leading_space s = 0" by (simp add: leading_space_def)
  from None have "\<forall>r \<in> set space_runes. take (length r) s \<noteq> r"
    by (simp add: find_None_iff)
  then have "\<forall>r \<in> set space_runes. \<not> (\<exists>x. s = r @ x)"
    using take_prefix_iff by blast
  with z show ?thesis by blast
next
  case (Some r)
  then have r: "r \<in> set space_runes" "take (length r) s = r"
    by (auto simp: find_Some_iff)
  with space_runes_nonempty [of r] Some have "leading_space s \<noteq> 0"
    by (simp add: leading_space_def)
  moreover from r have "\<exists>r \<in> set space_runes. \<exists>x. s = r @ x"
    using take_prefix_iff [of r s] by blast
  ultimately show ?thesis by blast
qed

lemma leading_space_rune:
  assumes "leading_space s \<noteq> 0"
  shows "\<exists>r \<in> set space_runes. s = r @ drop (leading_space s) s"
proof (cases "find (\<lambda>r. take (length r) s = r) space_runes")
  case None
  with assms show ?thesis by (simp add: leading_space_def)
next
  case (Some r)
  then have r: "r \<in> set space_runes" "take (length r) s = r"
    by (auto simp: find_Some_iff)
  from Some have l: "leading_space s = length r" by (simp add: leading_space_def)
  from r(2) have "s = r @ drop (length r) s" by (metis append_take_drop_id)
  with r(1) l show ?thesis by auto
qed

lemma trailing_space_0_iff:
  "trailing_space s = 0 \<longleftrightarrow> (\<forall>r \<in> set space_runes. \<not> (\<exists>x. s = x @ r))"
proof (cases "find (\<lambda>r. take (length r) (rev s) = rev r) space_runes")
  case None
  then have z: "trailing_space s = 0" by (simp add: trailing_space_def)
  from None have "\<forall>r \<in> set space_runes. take (length r) (rev s) \<noteq> rev r"
    by (simp add: find_None_iff)
  then have "\<forall>r \<in> set space_runes. \<not> (\<exists>x. s = x @ r)"
    using take_rev_suffix_iff by blast
  with z show ?thesis by blast
next
  case (Some r)
  then have r: "r \<in> set space_runes" "take (length r) (rev s) = rev r"
    by (auto simp: find_Some_iff)
  with space_runes_nonempty [of r] Some have "trailing_space s \<noteq> 0"
    by (simp add: trailing_space_def)
  moreover from r have "\<exists>r \<in> set space_runes. \<exists>x. s = x @ r"
    using take_rev_suffix_iff [of r s] by blast
  ultimately show ?thesis by blast
qed

lemma trailing_space_rune:
  assumes "trailing_space s \<noteq> 0"
  shows "\<exists>r \<in> set space_runes. s = take (length s - trailing_space s) s @ r"
proof (cases "find (\<lambda>r. take (length r) (rev s) = rev r) space_runes")
  case None
  with assms show ?thesis by (simp add: trailing_space_def)
next
  case (Some r)
  then have r: "r \<in> set space_runes" "take (length r) (rev s) = rev r"
    by (auto simp: find_Some_iff)
  from Some have l: "trailing_space s = length r" by (simp add: trailing_space_def)
  from r(2) obtain x where x: "s = x @ r" using take_rev_suffix_iff [of r s] by blast
  then have "take (length s - length r) s = x" by simp
  with x r(1) l show ?thesis by auto
qed

lemma trim_left_decomp:
  "\<exists>rs. set rs \<subseteq> set space_runes \<and> s = concat rs @ trim_left s"
proof (induction s rule: trim_left.induct)
  case (1 s)
  show ?case
  proof (cases "leading_space s = 0")
    case True
    then have "trim_left s = s" by (simp add: trim_left.simps [of s])
    then have "set [] \<subseteq> set space_runes \<and> s = concat [] @ trim_left s" by simp
    then show ?thesis by blast
  next
    case False
    then have t: "trim_left s = trim_left (drop (leading_space s) s)"
      by (simp add: trim_left.simps [of s])
    from leading_space_rune [OF False] obtain r where
      r: "r \<in> set space_runes" "s = r @ drop (leading_space s) s" by blast
    from 1 [OF False] obtain rs where
      rs: "set rs \<subseteq> set space_runes"
        "drop (leading_space s) s = concat rs @ trim_left (drop (leading_space s) s)" by blast
    from r rs t have "set (r # rs) \<subseteq> set space_runes \<and> s = concat (r # rs) @ trim_left s"
      by (metis append.assoc concat.simps(2) insert_subset list.simps(15))
    then show ?thesis by blast
  qed
qed

lemma leading_space_trim_left: "leading_space (trim_left s) = 0"
proof (induction s rule: trim_left.induct)
  case (1 s)
  show ?case
  proof (cases "leading_space s = 0")
    case True
    then show ?thesis by (simp add: trim_left.simps [of s])
  next
    case False
    with 1 show ?thesis by (simp add: trim_left.simps [of s])
  qed
qed

lemma trim_right_decomp:
  "\<exists>rs. set rs \<subseteq> set space_runes \<and> s = trim_right s @ concat rs"
proof (induction s rule: trim_right.induct)
  case (1 s)
  show ?case
  proof (cases "trailing_space s = 0")
    case True
    then have "trim_right s = s" by (simp add: trim_right.simps [of s])
    then have "set [] \<subseteq> set space_runes \<and> s = trim_right s @ concat []" by simp
    then show ?thesis by blast
  next
    case False
    then have t: "trim_right s = trim_right (take (length s - trailing_space s) s)"
      by (simp add: trim_right.simps [of s])
    from trailing_space_rune [OF False] obtain r where
      r: "r \<in> set space_runes" "s = take (length s - trailing_space s) s @ r" by blast
    from 1 [OF False] obtain rs where
      rs: "set rs \<subseteq> set space_runes"
        "take (length s - trailing_space s) s =
           trim_right (take (length s - trailing_space s) s) @ concat rs" by blast
    have c: "concat (rs @ [r]) = concat rs @ r" by simp
    from r(2) rs(2) t have "s = trim_right s @ concat rs @ r" by (metis append.assoc)
    with c r(1) rs(1) have "set (rs @ [r]) \<subseteq> set space_runes \<and> s = trim_right s @ concat (rs @ [r])"
      by simp
    then show ?thesis by blast
  qed
qed

lemma trailing_space_trim_right: "trailing_space (trim_right s) = 0"
proof (induction s rule: trim_right.induct)
  case (1 s)
  show ?case
  proof (cases "trailing_space s = 0")
    case True
    then show ?thesis by (simp add: trim_right.simps [of s])
  next
    case False
    with 1 show ?thesis by (simp add: trim_right.simps [of s])
  qed
qed

lemma TrimSpace_spec:
  "\<exists>ls rs. set ls \<subseteq> set space_runes \<and> set rs \<subseteq> set space_runes \<and>
           s = concat ls @ TrimSpace s @ concat rs \<and>
           (\<forall>r \<in> set space_runes. \<not> (\<exists>x. TrimSpace s = r @ x) \<and> \<not> (\<exists>x. TrimSpace s = x @ r))"
proof -
  from trim_left_decomp [of s] obtain ls where
    ls: "set ls \<subseteq> set space_runes" "s = concat ls @ trim_left s" by blast
  from trim_right_decomp [of "trim_left s"] obtain rs where
    rs: "set rs \<subseteq> set space_runes" "trim_left s = TrimSpace s @ concat rs"
    by (auto simp: TrimSpace_def)
  have no_suffix: "\<forall>r \<in> set space_runes. \<not> (\<exists>x. TrimSpace s = x @ r)"
    using trailing_space_trim_right [of "trim_left s"]
    by (simp add: TrimSpace_def trailing_space_0_iff)
  have no_prefix: "\<forall>r \<in> set space_runes. \<not> (\<exists>x. TrimSpace s = r @ x)"
  proof (intro ballI notI)
    fix r assume r: "r \<in> set space_runes" and "\<exists>x. TrimSpace s = r @ x"
    then obtain x where "TrimSpace s = r @ x" by blast
    with rs(2) have "trim_left s = r @ (x @ concat rs)" by simp
    with r leading_space_trim_left [of s] show False
      by (auto simp: leading_space_0_iff)
  qed
  from ls rs(2) have "s = concat ls @ TrimSpace s @ concat rs" by simp
  with ls(1) rs(1) no_prefix no_suffix show ?thesis by blast
qed

text \<open>
  C1. When no forced environment default applies, \<^verbatim>\<open>DefaultProvider\<close> returns what the
  ordered tiers give over the usable list: the environment default if it is usable; else
  the first configured provider that is usable and preferred; else the first configured
  provider that is usable; else the first preferred provider that is usable; else the
  first usable provider; else the error that there is no default provider. The three
  lists are those of the specification. The configured providers are the declared types
  in declaration order. The usable providers are the listed plugins that are not excluded
  and, when usability is checked, report that they are usable, in listing order; a
  failure of the plugin manager while they are collected ends the call with that error.
  The preferred providers are the pieces of the variable between the commas, each with
  the white space around it removed, the empty ones dropped, in order.
\<close>

theorem DefaultProvider_tiers:
  assumes "\<not> (VAGRANT_DEFAULT_PROVIDER env \<noteq> [] \<and> ForceDefault opts)"
  shows "DefaultProvider env p opts =
     (case usableProviders p opts of
        Inl err \<Rightarrow> Inl err
      | Inr usable \<Rightarrow>
          provider_tiers (VAGRANT_DEFAULT_PROVIDER env) (configProviders p opts) usable
            (preferredProviders env)) \<and>
     configProviders p opts =
       concat (map (\<lambda>m. if MachineName opts \<noteq> [] \<and> MachineName opts \<noteq> GetName m then []
                         else map GetType (GetProviders (GetConfigVm m)))
                (GetMachineConfigs (GetConfiguration (project p)))) \<and>
     (\<forall>usable pps.
        usableProviders p opts = Inr usable \<and> ListPlugins (plugins (basis p)) ''provider'' = Inr pps
        \<longrightarrow> usable = map Plugin_Name (filter (usable_plugin (plugins (basis p)) opts) pps)) \<and>
     usableProviders p opts =
       (case ListPlugins (plugins (basis p)) ''provider'' of
          Inl err \<Rightarrow> Inl err
        | Inr pps \<Rightarrow> usable_list (plugins (basis p)) opts pps) \<and>
     (\<forall>pps. ListPlugins (plugins (basis p)) ''provider'' = Inr pps \<and> \<not> CheckUsable opts
        \<longrightarrow> usableProviders p opts =
              Inr (filter (\<lambda>n. n \<notin> set (Exclude opts)) (map Plugin_Name pps))) \<and>
     preferredProviders env =
       filter (\<lambda>piece. piece \<noteq> [])
         (map TrimSpace (Split (VAGRANT_PREFERRED_PROVIDERS env) CHR '','')) \<and>
     join CHR '','' (Split (VAGRANT_PREFERRED_PROVIDERS env) CHR '','') = VAGRANT_PREFERRED_PROVIDERS env \<and>
     (\<forall>piece \<in> set (Split (VAGRANT_PREFERRED_PROVIDERS env) CHR '',''). CHR '','' \<notin> set piece) \<and>
     (\<forall>s. \<exists>ls rs. set ls \<subseteq> set space_runes \<and> set rs \<subseteq> set space_runes \<and>
            s = concat ls @ TrimSpace s @ concat rs \<and>
            (\<forall>r \<in> set space_runes.
               \<not> (\<exists>x. TrimSpace s = r @ x) \<and> \<not> (\<exists>x. TrimSpace s = x @ r)))"
proof (intro conjI allI impI ballI)
  show "DefaultProvider env p opts =
     (case usableProviders p opts of
        Inl err \<Rightarrow> Inl err
      | Inr usable \<Rightarrow>
          provider_tiers (VAGRANT_DEFAULT_PROVIDER env) (configProviders p opts) usable
            (preferredProviders env))"
    by (rule DefaultProvider_unforced [OF assms])
next
  show "configProviders p opts =
       concat (map (\<lambda>m. if MachineName opts \<noteq> [] \<and> MachineName opts \<noteq> GetName m then []
                         else map GetType (GetProviders (GetConfigVm m)))
                (GetMachineConfigs (GetConfiguration (project p))))"
    by (simp add: configProviders_def configProviders_loop_eq)
next
  fix usable pps
  assume "usableProviders p opts = Inr usable \<and> ListPlugins (plugins (basis p)) ''provider'' = Inr pps"
  then have "usableProviders_loop (plugins (basis p)) opts pps [] = Inr usable"
    by (auto simp: usableProviders_def)
  from usableProviders_loop_Inr [OF this]
  show "usable = map Plugin_Name (filter (usable_plugin (plugins (basis p)) opts) pps)"
    by simp
next
  show "usableProviders p opts =
       (case ListPlugins (plugins (basis p)) ''provider'' of
          Inl err \<Rightarrow> Inl err
        | Inr pps \<Rightarrow> usable_list (plugins (basis p)) opts pps)"
    by (rule usableProviders_usable_list)
next
  fix pps
  assume a: "ListPlugins (plugins (basis p)) ''provider'' = Inr pps \<and> \<not> CheckUsable opts"
  then have "usableProviders p opts = usable_list (plugins (basis p)) opts pps"
    by (simp add: usableProviders_usable_list)
  with a show "usableProviders p opts =
              Inr (filter (\<lambda>n. n \<notin> set (Exclude opts)) (map Plugin_Name pps))"
    by (simp add: usable_list_unchecked)
next
  show "preferredProviders env =
       filter (\<lambda>piece. piece \<noteq> [])
         (map TrimSpace (Split (VAGRANT_PREFERRED_PROVIDERS env) CHR '',''))"
    by (simp add: preferredProviders_def)
next
  show "join CHR '','' (Split (VAGRANT_PREFERRED_PROVIDERS env) CHR '','') = VAGRANT_PREFERRED_PROVIDERS env"
    by (rule join_Split)
next
  fix piece
  assume "piece \<in> set (Split (VAGRANT_PREFERRED_PROVIDERS env) CHR '','')"
  then show "CHR '','' \<notin> set piece" by (rule Split_no_sep)
next
  fix s
  show "\<exists>ls rs. set ls \<subseteq> set space_runes \<and> set rs \<subseteq> set space_runes \<and>
            s = concat ls @ TrimSpace s @ concat rs \<and>
            (\<forall>r \<in> set space_runes.
               \<not> (\<exists>x. TrimSpace s = r @ x) \<and> \<not> (\<exists>x. TrimSpace s = x @ r))"
    by (rule TrimSpace_spec)
qed

text \<open>
  Two instances of the specification. Configured \<open>virtualbox, vmware\<close>, usable \<open>vmware\<close>,
  no preferred providers: the result is \<open>vmware\<close>. Configured \<open>vmware, virtualbox\<close>, both
  usable once \<open>hyperv\<close> is excluded and \<open>docker\<close> has failed the check, \<open>virtualbox\<close> preferred:
  the result is \<open>virtualbox\<close>.
\<close>

theorem DefaultProvider_tiers_witness:
  "usableProviders (example_project [''default''] [''virtualbox'', ''vmware''] [''vmware'']) example_opts =
     Inr [''vmware''] \<and>
   preferredProviders example_env = [] \<and>
   configProviders (example_project [''default''] [''virtualbox'', ''vmware''] [''vmware'']) example_opts =
     [''virtualbox'', ''vmware''] \<and>
   DefaultProvider example_env (example_project [''default''] [''virtualbox'', ''vmware''] [''vmware''])
     example_opts = Inr ''vmware'' \<and>
   usableProviders checked_project checked_opts = Inr [''virtualbox'', ''vmware''] \<and>
   preferredProviders spaced_env = [''virtualbox'', ''hyperv''] \<and>
   TrimSpace [CHR 0x09, CHR ''a'', CHR 0xC2, CHR 0xA0] = ''a'' \<and>
   configProviders checked_project checked_opts = [''vmware'', ''virtualbox''] \<and>
   DefaultProvider spaced_env checked_project checked_opts = Inr ''virtualbox''"
proof -
  let ?p = "example_project [''default''] [''virtualbox'', ''vmware''] [''vmware'']"
  have a: "\<not> (VAGRANT_DEFAULT_PROVIDER example_env \<noteq> [] \<and> ForceDefault example_opts)"
    by (simp add: example_env_def)
  have b: "usableProviders ?p example_opts = Inr [''vmware'']"
    by (simp add: usableProviders_def example_project_def example_basis_def example_plugins_def
        example_opts_def IsExcluded_def)
  have c: "preferredProviders example_env = []"
    by (simp add: preferredProviders_def example_env_def TrimSpace_Nil)
  have d: "configProviders ?p example_opts = [''virtualbox'', ''vmware'']"
    by (simp add: configProviders_def example_project_def example_record_def example_opts_def
        GetConfiguration_def GetMachineConfigs_def GetName_def GetConfigVm_def GetProviders_def
        GetType_def)
  have 1: "DefaultProvider example_env ?p example_opts = Inr ''vmware''"
    using DefaultProvider_tiers [OF a, where p = ?p] b c d
    by (simp add: provider_tiers_def example_env_def)
  have a': "\<not> (VAGRANT_DEFAULT_PROVIDER spaced_env \<noteq> [] \<and> ForceDefault checked_opts)"
    by (simp add: spaced_env_def)
  have b': "usableProviders checked_project checked_opts = Inr [''virtualbox'', ''vmware'']"
    by (simp add: usableProviders_def checked_project_def checked_plugins_def checked_opts_def
        IsExcluded_def)
  have c': "preferredProviders spaced_env = [''virtualbox'', ''hyperv'']"
    by (simp add: preferredProviders_def spaced_env_def TrimSpace_def trim_left.simps
        trim_right.simps leading_space_def trailing_space_def space_runes_def)
  have d': "configProviders checked_project checked_opts = [''vmware'', ''virtualbox'']"
    by (simp add: configProviders_def checked_project_def example_project_def example_record_def
        checked_opts_def GetConfiguration_def GetMachineConfigs_def GetName_def GetConfigVm_def
        GetProviders_def GetType_def)
  have 2: "DefaultProvider spaced_env checked_project checked_opts = Inr ''virtualbox''"
    using DefaultProvider_tiers [OF a', where p = checked_project] b' c' d'
    by (simp add: provider_tiers_def spaced_env_def)
  have t: "TrimSpace [CHR 0x09, CHR ''a'', CHR 0xC2, CHR 0xA0] = ''a''"
    by (simp add: TrimSpace_def trim_left.simps trim_right.simps leading_space_def
        trailing_space_def space_runes_def)
  from b c d 1 b' c' d' 2 t show ?thesis by simp
qed


section \<open>The persisted target list\<close>

lemma TargetIds_loop_eq: "TargetIds_loop ts ids = ids @ map Ref_Target_ResourceId ts"
  by (induction ts arbitrary: ids) auto

lemma TargetNames_loop_eq: "TargetNames_loop ts names = names @ map Ref_Target_Name ts"
  by (induction ts arbitrary: names) auto

lemma digit_value: "d < 10 \<Longrightarrow> (of_char (digit d) :: nat) = 48 + d"
proof -
  assume "d < 10"
  then consider "d = 0" | "d = 1" | "d = 2" | "d = 3" | "d = 4" | "d = 5" | "d = 6" | "d = 7"
    | "d = 8" | "d = 9" by atomize_elim arith
  then show ?thesis by cases (simp_all add: digit_def)
qed

lemma number_decimal: "number (decimal n) = n"
proof (induction n rule: decimal.induct)
  case (1 n)
  show ?case
  proof (cases "n < 10")
    case True
    then show ?thesis by (simp add: decimal.simps [of n] number_def digit_value)
  next
    case False
    with 1 have "number (decimal (n div 10)) = n div 10" by simp
    with False show ?thesis
      by (simp add: decimal.simps [of n] number_def digit_value)
  qed
qed

lemma inj_decimal: "inj decimal"
  by (rule inj_on_inverseI [where g = number]) (rule number_decimal)

lemma distinct_decimal: "distinct (map (\<lambda>i. prefix @ decimal i) [0..<n])"
  using inj_decimal by (auto simp: distinct_map inj_on_def dest: injD)


text \<open>
  C8. \<^verbatim>\<open>TargetIds\<close> and \<^verbatim>\<open>TargetNames\<close> read the reference list of the Project's
  record and nothing of the loaded targets: whatever the load cache holds, they return
  the resource ids and the names of the recorded references, one entry for each, in
  order. With the \<open>n\<close> references \<open>id-0 .. id-(n-1)\<close>, \<open>target-0 .. target-(n-1)\<close>
  recorded, which are \<open>n\<close> distinct targets, each returns exactly those \<open>n\<close> strings.
\<close>

theorem TargetIds_TargetNames_persisted:
  assumes "project p = Some r"
  shows "TargetIds (p\<lparr>targets := cache\<rparr>) = Inr (map Ref_Target_ResourceId (Project_Targets r)) \<and>
         TargetNames (p\<lparr>targets := cache\<rparr>) = Inr (map Ref_Target_Name (Project_Targets r)) \<and>
         (Project_Targets r = map (test_ref pr) [0..<n] \<longrightarrow>
            TargetIds (p\<lparr>targets := cache\<rparr>) = Inr (map (\<lambda>i. ''id-'' @ decimal i) [0..<n]) \<and>
            TargetNames (p\<lparr>targets := cache\<rparr>) = Inr (map (\<lambda>i. ''target-'' @ decimal i) [0..<n]) \<and>
            length (map (\<lambda>i. ''id-'' @ decimal i) [0..<n]) = n \<and>
            length (map (\<lambda>i. ''target-'' @ decimal i) [0..<n]) = n \<and>
            distinct (map (\<lambda>i. ''id-'' @ decimal i) [0..<n]) \<and>
            distinct (map (\<lambda>i. ''target-'' @ decimal i) [0..<n]))"
  using assms distinct_decimal [of "''id-''" n] distinct_decimal [of "''target-''" n]
  by (simp add: TargetIds_def TargetNames_def TargetIds_loop_eq TargetNames_loop_eq test_ref_def
      comp_def)

lemma decimal_digits: "decimal 0 = ''0''" "decimal (Suc 0) = ''1''" "decimal 2 = ''2''"
  by (simp_all add: decimal.simps digit_def)

lemma upt3: "[0..<3] = [0, 1, 2]"
  by (simp add: upt_rec)

theorem TargetIds_TargetNames_persisted_witness:
  "TargetIds ((example_project [] [] [])\<lparr>project := Some ((example_record [] [])\<lparr>Project_Targets := map (test_ref None) [0..<3]\<rparr>), targets := []\<rparr>)
     = Inr [''id-0'', ''id-1'', ''id-2''] \<and>
   TargetNames ((example_project [] [] [])\<lparr>project := Some ((example_record [] [])\<lparr>Project_Targets := map (test_ref None) [0..<3]\<rparr>), targets := []\<rparr>)
     = Inr [''target-0'', ''target-1'', ''target-2'']"
  using TargetIds_TargetNames_persisted [of
      "(example_project [] [] [])\<lparr>project := Some ((example_record [] [])\<lparr>Project_Targets := map (test_ref None) [0..<3]\<rparr>)\<rparr>"
      "(example_record [] [])\<lparr>Project_Targets := map (test_ref None) [0..<3]\<rparr>" "[]" None 3]
  by (simp add: upt3 decimal_digits test_ref_def)

section \<open>Saving the Project\<close>

text \<open>
  What \<^verbatim>\<open>Save\<close> does when the upsert returns an error: with no response it panics on
  the nil response; with a response it returns the error and has replaced the record.
\<close>

lemma Save_on_error:
  assumes "project p = Some r"
    and "UpsertProject (client (basis p)) (project p) w = ((result, Some e), w')"
  shows "Save p w =
     (case result of
        None \<Rightarrow> (Some NilDereference, p, w')
      | Some res \<Rightarrow> (Some e, p\<lparr>project := UpsertProjectResponse_Project res\<rparr>, w'))"
  using assms by (simp add: Save_def split: option.splits)

text \<open>
  C9. \<^verbatim>\<open>Save\<close> at a client whose upsert fails with no response: the call panics on the
  nil response instead of returning the error of the upsert.
\<close>

theorem Save_failing_upsert:
  "UpsertProject failing_client (Some (example_record [] [])) [] =
     ((None, Some (Failure ''unavailable'')), [''UpsertProject'']) \<and>
   Save ((example_project [] [] [])\<lparr>basis := (example_basis [])\<lparr>client := failing_client\<rparr>\<rparr>) [] =
     (Some NilDereference,
      (example_project [] [] [])\<lparr>basis := (example_basis [])\<lparr>client := failing_client\<rparr>\<rparr>,
      [''UpsertProject''])"
  by (simp add: Save_def example_project_def failing_client_def example_client_def)

section \<open>Initialising the targets\<close>

lemma InitTargets_loop_append:
  "InitTargets_loop c pr (pre @ rest) u w =
     (case InitTargets_loop c pr pre u w of
        (Some e, u', w') \<Rightarrow> (Some e, u', w')
      | (None, u', w') \<Rightarrow> InitTargets_loop c pr rest u' w')"
  by (induction c pr pre u w rule: InitTargets_loop.induct) (auto split: prod.splits option.splits)

lemma InitTargets_loop_updated:
  "InitTargets_loop c pr ms u w = (None, u', w') \<Longrightarrow> u' = (u \<or> (\<exists>t. Some t \<in> set ms))"
  by (induction c pr ms u w rule: InitTargets_loop.induct) (auto split: prod.splits option.splits)


lemma InitTargets_loop_all_upserted:
  "all_upserted c pr (List.map_filter (\<lambda>m. m) ms) w = Some w1 \<Longrightarrow>
   InitTargets_loop c pr ms u w = (None, u \<or> List.map_filter (\<lambda>m. m) ms \<noteq> [], w1)"
proof (induction c pr ms u w rule: InitTargets_loop.induct)
  case (1 c pr updated w)
  then show ?case by (simp add: map_filter_simps)
next
  case (2 c pr ts updated w)
  then show ?case by (simp add: map_filter_simps)
next
  case (3 c pr t ts updated w)
  obtain e w' where u: "UpsertTarget c (target_request pr t) w = (e, w')"
    by (cases "UpsertTarget c (target_request pr t) w")
  show ?case
  proof (cases e)
    case None
    with 3 u show ?thesis by (simp add: map_filter_simps target_request_def)
  next
    case (Some err)
    with 3(2) u show ?thesis by (simp add: map_filter_simps target_request_def)
  qed
qed

text \<open>
  C6. \<^verbatim>\<open>InitTargets\<close> upserts a Target record for each machine configuration entry, in
  order, and is fail-fast: when the upserts of the entries before one succeed and that
  entry's upsert fails, its error is returned at once, with no later upsert and no
  refresh, the Project's record being the one it was. When every upsert succeeds and
  there was an entry, the Project's record is refreshed from the persistence client:
  \<^verbatim>\<open>FindProject\<close> is asked for the record's resource id and its answer replaces the
  record (an error of \<^verbatim>\<open>FindProject\<close> is returned and the record kept). With no entry
  nothing is asked and nothing changes.
\<close>

theorem InitTargets_fail_fast:
  assumes "project p = Some r" and "Configuration r = Some cfg"
    and "pr = \<lparr>Ref_Project_ResourceId = Project_ResourceId r, Ref_Project_Name = Project_Name r,
              Ref_Project_Basis = Project_Basis r\<rparr>"
  shows "(MachineConfigs cfg = pre @ Some t # post \<and>
          all_upserted (client (basis p)) pr (List.map_filter (\<lambda>m. m) pre) w = Some w1 \<and>
          UpsertTarget (client (basis p))
            \<lparr>Target_ResourceId = [], Target_Name = MachineConfig_Name t, Target_Provider = [],
             Target_Project = Some pr, Target_Configuration = Some t\<rparr> w1 = (Some e, w2)
          \<longrightarrow> InitTargets p w = (Some e, p, w2)) \<and>
         (all_upserted (client (basis p)) pr (List.map_filter (\<lambda>m. m) (MachineConfigs cfg)) w = Some w1
          \<longrightarrow> (List.map_filter (\<lambda>m. m) (MachineConfigs cfg) = [] \<longrightarrow> InitTargets p w = (None, p, w)) \<and>
              (List.map_filter (\<lambda>m. m) (MachineConfigs cfg) \<noteq> [] \<longrightarrow>
                 (\<forall>result err w3.
                    FindProject (client (basis p))
                      \<lparr>Project_ResourceId = Project_ResourceId r, Project_Name = [], Project_Path = [],
                       Project_Basis = None, Project_Targets = [], Configuration = None\<rparr> w1 =
                      ((result, err), w3)
                    \<longrightarrow> InitTargets p w =
                          (case err of
                             Some e \<Rightarrow> (Some e, p, w3)
                           | None \<Rightarrow>
                               (case result of
                                  None \<Rightarrow> (Some NilDereference, p, w3)
                                | Some res \<Rightarrow>
                                    (None, p\<lparr>project := FindProjectResponse_Project res\<rparr>, w3))))))"
proof (intro conjI impI allI)
  assume a: "MachineConfigs cfg = pre @ Some t # post \<and>
          all_upserted (client (basis p)) pr (List.map_filter (\<lambda>m. m) pre) w = Some w1 \<and>
          UpsertTarget (client (basis p))
            \<lparr>Target_ResourceId = [], Target_Name = MachineConfig_Name t, Target_Provider = [],
             Target_Project = Some pr, Target_Configuration = Some t\<rparr> w1 = (Some e, w2)"
  then have ms: "MachineConfigs cfg = pre @ Some t # post"
    and ok: "all_upserted (client (basis p)) pr (List.map_filter (\<lambda>m. m) pre) w = Some w1"
    and bad: "UpsertTarget (client (basis p)) (target_request pr t) w1 = (Some e, w2)"
    by (simp_all add: target_request_def)
  from InitTargets_loop_all_upserted [OF ok, of False] bad
  have "InitTargets_loop (client (basis p)) pr (pre @ Some t # post) False w =
      (Some e, List.map_filter (\<lambda>m. m) pre \<noteq> [], w2)"
    by (simp add: InitTargets_loop_append)
  with assms ms show "InitTargets p w = (Some e, p, w2)"
    by (simp add: InitTargets_def)
next
  assume ok: "all_upserted (client (basis p)) pr (List.map_filter (\<lambda>m. m) (MachineConfigs cfg)) w = Some w1"
  assume none: "List.map_filter (\<lambda>m. m) (MachineConfigs cfg) = []"
  with ok have "w1 = w" by simp
  with InitTargets_loop_all_upserted [OF ok, of False] none assms
  show "InitTargets p w = (None, p, w)"
    by (simp add: InitTargets_def)
next
  fix result err w3
  assume ok: "all_upserted (client (basis p)) pr (List.map_filter (\<lambda>m. m) (MachineConfigs cfg)) w = Some w1"
  assume some: "List.map_filter (\<lambda>m. m) (MachineConfigs cfg) \<noteq> []"
  assume find: "FindProject (client (basis p))
                      \<lparr>Project_ResourceId = Project_ResourceId r, Project_Name = [], Project_Path = [],
                       Project_Basis = None, Project_Targets = [], Configuration = None\<rparr> w1 =
                      ((result, err), w3)"
  from InitTargets_loop_all_upserted [OF ok, of False] some assms
  have "InitTargets p w = refreshProject p w1"
    by (simp add: InitTargets_def)
  with find assms(1) show "InitTargets p w =
                          (case err of
                             Some e \<Rightarrow> (Some e, p, w3)
                           | None \<Rightarrow>
                               (case result of
                                  None \<Rightarrow> (Some NilDereference, p, w3)
                                | Some res \<Rightarrow>
                                    (None, p\<lparr>project := FindProjectResponse_Project res\<rparr>, w3)))"
    by (simp add: refreshProject_def)
qed

lemma example_InitTargets_simps:
  "project (example_project ms ps ns) = Some (example_record ms ps)"
  "Configuration (example_record ms ps) = Some \<lparr>Vagrantfile_Path = ''/proj/Vagrantfile'',
        MachineConfigs = map (\<lambda>n. Some \<lparr>MachineConfig_Name = n,
          ConfigVm = Some \<lparr>Providers = map (\<lambda>t. Some \<lparr>Provider_Type = t\<rparr>) ps\<rparr>\<rparr>) ms\<rparr>"
  "client (basis (example_project ms ps ns)) = example_client"
  by (simp_all add: example_project_def example_record_def example_basis_def)

text \<open>
  The first upsert succeeds, the second fails: the call returns the error, the record is
  the one it was, and the persistence client has seen no \<^verbatim>\<open>FindProject\<close>.
\<close>

theorem InitTargets_partial_counterexample:
  "UpsertTarget example_client
     (target_request \<lparr>Ref_Project_ResourceId = ''proj-id'', Ref_Project_Name = ''proj'', Ref_Project_Basis = None\<rparr>
        \<lparr>MachineConfig_Name = ''one'', ConfigVm = Some \<lparr>Providers = []\<rparr>\<rparr>) [] =
     (None, [''UpsertTarget one'']) \<and>
   InitTargets (example_project [''one'', ''broken'', ''three''] [] []) [] =
     (Some (Failure ''upsert failed''),
      example_project [''one'', ''broken'', ''three''] [] [],
      [''UpsertTarget one'', ''UpsertTarget broken''])"
  by (simp add: InitTargets_def example_InitTargets_simps example_record_def example_client_def target_request_def)

theorem InitTargets_fail_fast_witness:
  "InitTargets (example_project [''one'', ''broken'', ''three''] [] []) [] =
     (Some (Failure ''upsert failed''),
      example_project [''one'', ''broken'', ''three''] [] [],
      [''UpsertTarget one'', ''UpsertTarget broken'']) \<and>
   InitTargets (example_project [''one'', ''two''] [] []) [] =
     (None,
      (example_project [''one'', ''two''] [] [])
        \<lparr>project := Some \<lparr>Project_ResourceId = ''proj-id'', Project_Name = ''refreshed'',
                           Project_Path = [], Project_Basis = None, Project_Targets = [],
                           Configuration = None\<rparr>\<rparr>,
      [''UpsertTarget one'', ''UpsertTarget two'', ''FindProject''])"
proof -
  let ?pr = "\<lparr>Ref_Project_ResourceId = ''proj-id'', Ref_Project_Name = ''proj'', Ref_Project_Basis = None\<rparr>"
  let ?mc = "\<lambda>n. \<lparr>MachineConfig_Name = n, ConfigVm = Some \<lparr>Providers = []\<rparr>\<rparr>"
  let ?cfg = "\<lambda>ms. \<lparr>Vagrantfile_Path = ''/proj/Vagrantfile'', MachineConfigs = map (\<lambda>n. Some (?mc n)) ms\<rparr>"
  have r: "Project_ResourceId (example_record ms []) = ''proj-id''"
    "Project_Name (example_record ms []) = ''proj''"
    "Project_Basis (example_record ms []) = None" for ms
    by (simp_all add: example_record_def)
  have 1: "InitTargets (example_project [''one'', ''broken'', ''three''] [] []) [] =
     (Some (Failure ''upsert failed''),
      example_project [''one'', ''broken'', ''three''] [] [],
      [''UpsertTarget one'', ''UpsertTarget broken''])"
    using InitTargets_fail_fast [where p = "example_project [''one'', ''broken'', ''three''] [] []"
        and r = "example_record [''one'', ''broken'', ''three''] []"
        and cfg = "?cfg [''one'', ''broken'', ''three'']" and pr = ?pr
        and pre = "[Some (?mc ''one'')]" and t = "?mc ''broken''" and post = "[Some (?mc ''three'')]"
        and w = "[]" and ?w1.0 = "[''UpsertTarget one'']"
        and e = "Failure ''upsert failed''" and ?w2.0 = "[''UpsertTarget one'', ''UpsertTarget broken'']"]
    by (simp add: example_InitTargets_simps r example_client_def map_filter_simps)
  have 2: "InitTargets (example_project [''one'', ''two''] [] []) [] =
     (None,
      (example_project [''one'', ''two''] [] [])
        \<lparr>project := Some \<lparr>Project_ResourceId = ''proj-id'', Project_Name = ''refreshed'',
                           Project_Path = [], Project_Basis = None, Project_Targets = [],
                           Configuration = None\<rparr>\<rparr>,
      [''UpsertTarget one'', ''UpsertTarget two'', ''FindProject''])"
    using InitTargets_fail_fast [where p = "example_project [''one'', ''two''] [] []"
        and r = "example_record [''one'', ''two''] []"
        and cfg = "?cfg [''one'', ''two'']" and pr = ?pr
        and w = "[]" and ?w1.0 = "[''UpsertTarget one'', ''UpsertTarget two'']"]
    by (simp add: example_InitTargets_simps r example_client_def map_filter_simps)
  from 1 2 show ?thesis by simp
qed


section \<open>Closing the Project\<close>

lemma length_run_all: "length (fst (run_all fs w)) = length fs"
proof (induction fs arbitrary: w)
  case Nil
  then show ?case by simp
next
  case (Cons f fs)
  obtain e w' where f: "f w = (e, w')" by (cases "f w")
  obtain es w'' where r: "run_all fs w' = (es, w'')" by (cases "run_all fs w'")
  from Cons [of w'] r have "length es = length fs" by simp
  with f r show ?case by simp
qed

lemma close_targets_run_closers:
  "close_targets tc ts err w = run_closers (map (\<lambda>(name, m). tc m) ts) err w"
  by (induction tc ts err w rule: close_targets.induct) (auto split: prod.splits option.splits)

lemma run_closers_append:
  "run_closers (fs @ gs) err w = (case run_closers fs err w of (err', w') \<Rightarrow> run_closers gs err' w')"
  by (induction fs err w rule: run_closers.induct) (auto split: prod.splits option.splits)

lemma failures_Cons_None: "failures (None # es) = failures es"
  by (simp add: failures_def map_filter_simps)

lemma failures_Cons_Some: "failures (Some e # es) = flatten1 e @ failures es"
  by (simp add: failures_def map_filter_simps)

lemma run_closers_Multi:
  "run_all fs w = (es, w') \<Longrightarrow>
   run_closers fs (Some (MultiError xs)) w = (Some (MultiError (xs @ failures es)), w')"
proof (induction fs arbitrary: xs w es w')
  case Nil
  then show ?case by (simp add: failures_def map_filter_simps)
next
  case (Cons f fs)
  obtain e w1 where f: "f w = (e, w1)" by (cases "f w")
  obtain es1 w2 where r: "run_all fs w1 = (es1, w2)" by (cases "run_all fs w1")
  from Cons.prems f r have es: "es = e # es1" and w': "w' = w2" by simp_all
  show ?case
  proof (cases e)
    case None
    with f r es w' Cons.IH [OF r, of xs] show ?thesis
      by (simp add: failures_Cons_None)
  next
    case (Some x)
    with f r es w' Cons.IH [OF r, of "xs @ flatten1 x"] show ?thesis
      by (simp add: failures_Cons_Some multierror_Append_def)
  qed
qed

lemma run_closers_None:
  "run_all fs w = (es, w') \<Longrightarrow> run_closers fs None w = (aggregate es, w')"
proof (induction fs arbitrary: w es w')
  case Nil
  then show ?case by (simp add: aggregate_def map_filter_simps)
next
  case (Cons f fs)
  obtain e w1 where f: "f w = (e, w1)" by (cases "f w")
  obtain es1 w2 where r: "run_all fs w1 = (es1, w2)" by (cases "run_all fs w1")
  from Cons.prems f r have es: "es = e # es1" and w': "w' = w2" by simp_all
  show ?case
  proof (cases e)
    case None
    with f r es w' Cons.IH [OF r] show ?thesis
      by (simp add: aggregate_def failures_Cons_None map_filter_simps)
  next
    case (Some x)
    with f r es w' run_closers_Multi [OF r, of "flatten1 x"] show ?thesis
      by (simp add: aggregate_def failures_Cons_Some map_filter_simps multierror_Append_def)
  qed
qed

lemma failures_member:
  "Some e \<in> set es \<Longrightarrow> set (flatten1 e) \<subseteq> set (failures es)"
proof (induction es)
  case Nil
  then show ?case by simp
next
  case (Cons a es)
  then show ?case
    by (cases a) (auto simp: failures_Cons_None failures_Cons_Some)
qed


text \<open>
  C7. \<^verbatim>\<open>Close\<close> attempts every loaded Target's close and then every registered cleanup
  action, in order, whatever the ones before returned: \<open>es\<close> holds what each of them
  returned and \<open>w'\<close> is the world after all of them. The error returned is the aggregate
  of all the failures, so each failure is among its entries, and the Project's name is
  removed from its Basis's project collection.
\<close>

theorem Close_attempts_all:
  assumes "project p = Some r"
    and "run_all (map (\<lambda>(name, m). Target_Close m) (targets p) @ closers p) w = (es, w')"
  shows "Close Target_Close p w =
           (aggregate es,
            p\<lparr>basis := (basis p)\<lparr>projects := AList.delete (Project_Name r) (projects (basis p))\<rparr>\<rparr>,
            w') \<and>
         length es = length (targets p) + length (closers p) \<and>
         (\<forall>e. Some e \<in> set es \<longrightarrow>
              (\<exists>errs. aggregate es = Some (MultiError errs) \<and> set (flatten1 e) \<subseteq> set errs)) \<and>
         map_of (AList.delete (Project_Name r) (projects (basis p))) (Project_Name r) = None"
proof (intro conjI allI impI)
  have "Close Target_Close p w =
      (case run_closers (map (\<lambda>(name, m). Target_Close m) (targets p) @ closers p) None w of
         (err2, w2) \<Rightarrow>
           (err2, p\<lparr>basis := (basis p)\<lparr>projects := AList.delete (Project_Name r) (projects (basis p))\<rparr>\<rparr>, w2))"
    using assms(1)
    by (simp add: Close_def Name_def close_targets_run_closers run_closers_append split: prod.splits)
  with run_closers_None [OF assms(2)]
  show "Close Target_Close p w =
           (aggregate es,
            p\<lparr>basis := (basis p)\<lparr>projects := AList.delete (Project_Name r) (projects (basis p))\<rparr>\<rparr>,
            w')"
    by simp
next
  from length_run_all [of "map (\<lambda>(name, m). Target_Close m) (targets p) @ closers p" w] assms(2)
  show "length es = length (targets p) + length (closers p)" by simp
next
  fix e assume e: "Some e \<in> set es"
  then have "List.map_filter (\<lambda>e. e) es \<noteq> []"
    by (auto simp: map_filter_def filter_empty_conv)
  then have "aggregate es = Some (MultiError (failures es))"
    by (simp add: aggregate_def)
  with failures_member [OF e]
  show "\<exists>errs. aggregate es = Some (MultiError errs) \<and> set (flatten1 e) \<subseteq> set errs"
    by blast
next
  show "map_of (AList.delete (Project_Name r) (projects (basis p))) (Project_Name r) = None"
    by (simp add: delete_conv)
qed

theorem Close_attempts_all_witness:
  "fst (Close example_Target_Close closing_project []) =
     Some (MultiError [Failure ''target close failed'', Failure ''first closer failed'']) \<and>
   snd (snd (Close example_Target_Close closing_project [])) =
     [''Target.Close 0'', ''Target.Close 1'', ''Target.Close 2'', ''first closer'', ''second closer''] \<and>
   projects (basis (fst (snd (Close example_Target_Close closing_project [])))) = []"
proof -
  have p: "project closing_project = Some (example_record [] [])"
    by (simp add: closing_project_def example_project_def)
  have r: "run_all (map (\<lambda>(name, m). example_Target_Close m) (targets closing_project) @
             closers closing_project) [] =
           ([None, Some (Failure ''target close failed''), None, Some (Failure ''first closer failed''), None],
            [''Target.Close 0'', ''Target.Close 1'', ''Target.Close 2'', ''first closer'', ''second closer''])"
    by (simp add: closing_project_def example_Target_Close_def decimal_digits)
  have a: "aggregate [None, Some (Failure ''target close failed''), None, Some (Failure ''first closer failed''), None]
      = Some (MultiError [Failure ''target close failed'', Failure ''first closer failed''])"
    by (simp add: aggregate_def failures_def map_filter_simps)
  have d: "AList.delete (Project_Name (example_record [] [])) (projects (basis closing_project)) = []"
    by (simp add: closing_project_def example_project_def example_record_def example_basis_def
        AList.delete_eq)
  from Close_attempts_all [OF p r] a d show ?thesis by simp
qed


section \<open>Loading a Target\<close>



lemma LoadTarget_heap:
  assumes "LoadTarget topts p heap w = (res, p', heap', w')"
  shows "\<exists>xs. heap' = heap @ xs"
proof -
  obtain err t w0 where a: "apply_options topts None new_shell w = (err, t, w0)"
    by (cases "apply_options topts None new_shell w") auto
  show ?thesis
  proof (cases err)
    case (Some e)
    with a assms show ?thesis by (simp add: LoadTarget_def)
  next
    case None
    show ?thesis
    proof (cases "ensure_dir p t")
      case (Inl e)
      with a None assms show ?thesis by (simp add: LoadTarget_def)
    next
      case (Inr t0)
      show ?thesis
      proof (cases "target t0")
        case None
        with a \<open>err = None\<close> Inr assms show ?thesis by (simp add: LoadTarget_def)
      next
        case (Some r)
        with a \<open>err = None\<close> Inr assms show ?thesis
          by (cases "map_of (targets p) (Target_ResourceId r)") (auto simp: LoadTarget_def)
      qed
    qed
  qed
qed




section \<open>Looking a Target up\<close>

lemma Target_scan_pass:
  "\<forall>e \<in> set pre. no_match k heap e \<Longrightarrow>
   Target_scan st k prov (pre @ rest) heap = Target_scan st k prov rest heap"
proof (induction pre)
  case Nil
  then show ?case by simp
next
  case (Cons e pre)
  obtain key t where e: "e = (key, t)" by (cases e)
  from Cons.prems e obtain r where "t < length heap" "target (heap ! t) = Some r"
    "Target_Name r \<noteq> k" "Target_ResourceId r \<noteq> k"
    by (auto simp: no_match_def split: option.splits)
  with Cons e show ?case by simp
qed

lemma Target_scan_changes:
  "Target_scan st k prov ts heap = Some (res, heap') \<Longrightarrow>
   length heap' = length heap \<and>
   (\<forall>a < length heap. heap' ! a \<noteq> heap ! a \<longrightarrow>
      prov \<noteq> [] \<and> st (heap ! a) = Inr False \<and> res = Inr a \<and>
      (\<exists>r. target (heap ! a) = Some r \<and> Target_Name r = k \<and>
           heap' ! a = (heap ! a)\<lparr>target := Some (r\<lparr>Target_Provider := prov\<rparr>)\<rparr>))"
proof (induction ts)
  case Nil
  then show ?case by simp
next
  case (Cons e ts)
  obtain key t where e: "e = (key, t)" by (cases e)
  show ?case
  proof (cases "t < length heap")
    case False
    with Cons.prems e show ?thesis by simp
  next
    case True
    show ?thesis
    proof (cases "target (heap ! t)")
      case None
      with Cons.prems e True show ?thesis by simp
    next
      case (Some r)
      show ?thesis
      proof (cases "Target_Name r = k")
        case name: True
        show ?thesis
        proof (cases "st (heap ! t)")
          case (Inl err)
          with Cons.prems e True Some name show ?thesis by simp
        next
          case (Inr active)
          show ?thesis
          proof (cases "prov \<noteq> [] \<and> \<not> active")
            case False
            with Cons.prems e True Some name Inr show ?thesis by auto
          next
            case ov: True
            with Cons.prems e True Some name Inr
            have "res = Inr t" "heap' = heap[t := (heap ! t)\<lparr>target := Some (r\<lparr>Target_Provider := prov\<rparr>)\<rparr>]"
              by auto
            with True Some name Inr ov show ?thesis
              by (auto simp: nth_list_update)
          qed
        qed
      next
        case noname: False
        show ?thesis
        proof (cases "Target_ResourceId r = k")
          case True
          with Cons.prems e \<open>t < length heap\<close> Some noname show ?thesis by simp
        next
          case False
          with Cons.prems e \<open>t < length heap\<close> Some noname
          have "Target_scan st k prov ts heap = Some (res, heap')" by simp
          with Cons.IH show ?thesis by simp
        qed
      qed
    qed
  qed
qed


text \<open>
  C5. \<^verbatim>\<open>Project.Target\<close>: a key of the target map is returned directly, nothing
  changed. Otherwise the scan passes over the entries that match neither by name nor by
  resource id; at the first entry that matches, a name match with a readable state
  returns the Target and overwrites its provider exactly when the provider argument is
  not empty and the state is not active, and a resource-id match returns the Target
  with nothing read or changed. Whatever the call does, a Target whose state is active
  is the same after it.
\<close>

theorem Project_Target_lookup:
  assumes "Project_Target api nameOrId provider p heap w = (res, p', heap', w')"
  shows "(map_of (targets p) nameOrId = Some t \<longrightarrow> res = Inr t \<and> p' = p \<and> heap' = heap \<and> w' = w) \<and>
         (map_of (targets p) nameOrId = None \<and> targets p = pre @ (key, t) # post \<and>
          (\<forall>e \<in> set pre. no_match nameOrId heap e) \<and> t < length heap \<and> target (heap ! t) = Some r
          \<longrightarrow> (Target_Name r = nameOrId \<and> State api (heap ! t) = Inr active
               \<longrightarrow> res = Inr t \<and> p' = p \<and> w' = w \<and>
                   heap' = (if provider \<noteq> [] \<and> \<not> active
                            then heap[t := (heap ! t)\<lparr>target := Some (r\<lparr>Target_Provider := provider\<rparr>)\<rparr>]
                            else heap)) \<and>
              (Target_Name r \<noteq> nameOrId \<and> Target_ResourceId r = nameOrId
               \<longrightarrow> res = Inr t \<and> p' = p \<and> w' = w \<and> heap' = heap)) \<and>
         (\<forall>a < length heap. State api (heap ! a) = Inr True \<longrightarrow> heap' ! a = heap ! a)"
proof (intro conjI impI allI)
  assume "map_of (targets p) nameOrId = Some t"
  with assms show "res = Inr t" "p' = p" "heap' = heap" "w' = w"
    by (simp_all add: Project_Target_def)
next
  assume a: "map_of (targets p) nameOrId = None \<and> targets p = pre @ (key, t) # post \<and>
          (\<forall>e \<in> set pre. no_match nameOrId heap e) \<and> t < length heap \<and> target (heap ! t) = Some r"
  then have m: "map_of (targets p) nameOrId = None" and tl: "t < length heap"
    and tr: "target (heap ! t) = Some r" and tp: "targets p = pre @ (key, t) # post"
    and nm: "\<forall>e \<in> set pre. no_match nameOrId heap e" by blast+
  from tp nm have scan: "Target_scan (State api) nameOrId provider (targets p) heap =
      Target_scan (State api) nameOrId provider ((key, t) # post) heap"
    using Target_scan_pass [of pre nameOrId heap "State api" provider "(key, t) # post"] by simp
  {
    assume b: "Target_Name r = nameOrId \<and> State api (heap ! t) = Inr active"
    with tl tr have "Target_scan (State api) nameOrId provider ((key, t) # post) heap =
        Some (Inr t, if provider \<noteq> [] \<and> \<not> active
                     then heap[t := (heap ! t)\<lparr>target := Some (r\<lparr>Target_Provider := provider\<rparr>)\<rparr>]
                     else heap)"
      by simp
    with scan have "Target_scan (State api) nameOrId provider (targets p) heap =
        Some (Inr t, if provider \<noteq> [] \<and> \<not> active
                     then heap[t := (heap ! t)\<lparr>target := Some (r\<lparr>Target_Provider := provider\<rparr>)\<rparr>]
                     else heap)"
      by simp
    with m assms show "res = Inr t" "p' = p" "w' = w"
      "heap' = (if provider \<noteq> [] \<and> \<not> active
                then heap[t := (heap ! t)\<lparr>target := Some (r\<lparr>Target_Provider := provider\<rparr>)\<rparr>]
                else heap)"
      by (simp_all add: Project_Target_def)
  }
  {
    assume b: "Target_Name r \<noteq> nameOrId \<and> Target_ResourceId r = nameOrId"
    with tl tr have "Target_scan (State api) nameOrId provider ((key, t) # post) heap = Some (Inr t, heap)"
      by simp
    with scan have "Target_scan (State api) nameOrId provider (targets p) heap = Some (Inr t, heap)"
      by simp
    with m assms show "res = Inr t" "p' = p" "w' = w" "heap' = heap"
      by (simp_all add: Project_Target_def)
  }
next
  fix a
  assume len: "a < length heap" and act: "State api (heap ! a) = Inr True"
  show "heap' ! a = heap ! a"
  proof (cases "map_of (targets p) nameOrId")
    case (Some t0)
    with assms show ?thesis by (simp add: Project_Target_def)
  next
    case None
    show ?thesis
    proof (cases "Target_scan (State api) nameOrId provider (targets p) heap")
      case (Some hit)
      obtain res0 heap0 where hit: "hit = (res0, heap0)" by (cases hit)
      with assms None Some have "heap' = heap0" by (simp add: Project_Target_def)
      with Target_scan_changes [of "State api" nameOrId provider "targets p" heap res0 heap0]
        Some hit len act
      show ?thesis by auto
    next
      case scan_none: None
      show ?thesis
      proof (cases "Ref p")
        case (Inl panic)
        with assms None scan_none show ?thesis by (simp add: Project_Target_def)
      next
        case (Inr pr)
        with assms None scan_none
        have "LoadTarget
                [WithTargetRef api
                   \<lparr>Ref_Target_ResourceId = nameOrId, Ref_Target_Name = nameOrId,
                    Ref_Target_Project = Some pr\<rparr>,
                 WithProvider api provider] p heap w = (res, p', heap', w')"
          by (simp add: Project_Target_def)
        from LoadTarget_heap [OF this] obtain xs where "heap' = heap @ xs" by blast
        with len show ?thesis by (simp add: nth_append)
      qed
    qed
  qed
qed

text \<open>
  The lookups at a Project with two loaded Targets, the first active: by key; by the
  name of the inactive one, whose provider is overwritten; by the name of the active
  one, which is left alone; and by a resource id that is not a key of the map.
\<close>

theorem Project_Target_lookup_witness:
  "State example_api loaded_one = Inr True \<and> State example_api loaded_two = Inr False \<and>
   Project_Target example_api ''id-one'' ''vmware'' loaded_project [loaded_one, loaded_two] [] =
     (Inr 0, loaded_project, [loaded_one, loaded_two], []) \<and>
   Project_Target example_api ''two'' ''vmware'' loaded_project [loaded_one, loaded_two] [] =
     (Inr 1, loaded_project,
      [loaded_one,
       loaded_two\<lparr>target := Some \<lparr>Target_ResourceId = ''id-two'', Target_Name = ''two'',
                                     Target_Provider = ''vmware'', Target_Project = None,
                                     Target_Configuration = None\<rparr>\<rparr>], []) \<and>
   Project_Target example_api ''one'' ''vmware'' loaded_project [loaded_one, loaded_two] [] =
     (Inr 0, loaded_project, [loaded_one, loaded_two], []) \<and>
   Project_Target example_api ''id-two'' ''vmware''
       (loaded_project\<lparr>targets := [(''id-one'', 0), (''stale'', 1)]\<rparr>) [loaded_one, loaded_two] [] =
     (Inr 1, loaded_project\<lparr>targets := [(''id-one'', 0), (''stale'', 1)]\<rparr>, [loaded_one, loaded_two], [])"
proof -
  let ?heap = "[loaded_one, loaded_two]"
  let ?two = "\<lparr>Target_ResourceId = ''id-two'', Target_Name = ''two'', Target_Provider = [],
               Target_Project = None, Target_Configuration = None\<rparr>"
  have tg: "targets loaded_project = [(''id-one'', 0), (''id-two'', 1)]"
    by (simp add: loaded_project_def)
  have st: "State example_api loaded_one = Inr True" "State example_api loaded_two = Inr False"
    by (simp_all add: example_api_def loaded_one_def loaded_two_def)
  have h0: "?heap ! 0 = loaded_one" and h1: "?heap ! 1 = loaded_two" by simp_all
  have t1: "target loaded_one = Some \<lparr>Target_ResourceId = ''id-one'', Target_Name = ''one'',
      Target_Provider = [], Target_Project = None, Target_Configuration = None\<rparr>"
    and t2: "target loaded_two = Some ?two"
    by (simp_all add: loaded_one_def loaded_two_def)
  have by_key: "Project_Target example_api ''id-one'' ''vmware'' loaded_project ?heap [] =
     (Inr 0, loaded_project, ?heap, [])"
    by (simp add: Project_Target_def tg)
  have by_active: "Project_Target example_api ''one'' ''vmware'' loaded_project ?heap [] =
     (Inr 0, loaded_project, ?heap, [])"
    by (simp add: Project_Target_def tg h0 t1 st)
  have by_id: "Project_Target example_api ''id-two'' ''vmware''
       (loaded_project\<lparr>targets := [(''id-one'', 0), (''stale'', 1)]\<rparr>) ?heap [] =
     (Inr 1, loaded_project\<lparr>targets := [(''id-one'', 0), (''stale'', 1)]\<rparr>, ?heap, [])"
    by (simp add: Project_Target_def h0 h1 t1 t2)
  obtain res p' heap' w' where
    call: "Project_Target example_api ''two'' ''vmware'' loaded_project ?heap [] = (res, p', heap', w')"
    by (cases "Project_Target example_api ''two'' ''vmware'' loaded_project ?heap []") auto
  have miss: "map_of (targets loaded_project) ''two'' = None" by (simp add: tg)
  have pass: "\<forall>e \<in> set [(''id-one'', 0 :: nat)]. no_match ''two'' ?heap e"
    by (simp add: no_match_def t1)
  have split: "targets loaded_project = [(''id-one'', 0)] @ (''id-two'', 1) # []" by (simp add: tg)
  from Project_Target_lookup [OF call, where pre = "[(''id-one'', 0)]" and key = "''id-two''"
      and t = 1 and post = "[]" and r = ?two and active = False]
    miss pass split h1 t2 st
  have "res = Inr 1 \<and> p' = loaded_project \<and> w' = [] \<and>
        heap' = ?heap[1 := loaded_two\<lparr>target := Some (?two\<lparr>Target_Provider := ''vmware''\<rparr>)\<rparr>]"
    by simp
  with call have by_name: "Project_Target example_api ''two'' ''vmware'' loaded_project ?heap [] =
     (Inr 1, loaded_project,
      [loaded_one, loaded_two\<lparr>target := Some (?two\<lparr>Target_Provider := ''vmware''\<rparr>)\<rparr>], [])"
    by simp
  from st by_key by_name by_active by_id show ?thesis by simp
qed

section \<open>The Factory\<close>

lemma unlock_free: "\<not> m f \<Longrightarrow> f\<lparr>m := False\<rparr> = f"
  by (cases f) simp

lemma New_hit:
  assumes "\<not> m f" and "name \<noteq> []" and "map_of (registered f) name = Some b"
  shows "New NewBasis Basis_Close name opts f heap w = Some (Inr b, f, heap, w)"
  using assms by (simp add: New_def unlock_free)

text \<open>
  C4. A call with a non-empty name that is registered returns the registered Basis at
  once: whatever the construction function and the options are, the result is that
  pointer and the Factory, the heap and the world are as before (no child plugin
  manager, no construction, no option applied).
\<close>

theorem New_registry_hit:
  assumes "\<not> m f" and "name \<noteq> []" and "map_of (registered f) name = Some b"
  shows "New NewBasis Basis_Close name opts f heap w = Some (Inr b, f, heap, w)"
  by (rule New_hit [OF assms])

theorem New_registry_hit_witness:
  "\<not> m example_factory \<and> map_of (registered example_factory) ''default'' = Some 0 \<and>
   New example_NewBasis example_Basis_Close ''default'' [''invalid''] example_factory [example_basis []] [] =
     Some (Inr 0, example_factory, [example_basis []], [])"
proof -
  have a: "\<not> m example_factory" by (simp add: example_factory_def)
  have b: "''default'' \<noteq> []" by simp
  have c: "map_of (registered example_factory) ''default'' = Some 0" by (simp add: example_factory_def)
  from New_registry_hit [OF a b c] a c show ?thesis by simp
qed

lemma New_miss:
  assumes "\<not> m f" and "name = [] \<or> map_of (registered f) name = None"
  shows "New NewBasis Basis_Close name opts f heap w =
     (case NewBasis opts (f\<lparr>m := True, subs := subs f @ [name]\<rparr>) name w of
        (Inl err, w') \<Rightarrow> Some (Inl err, f\<lparr>subs := subs f @ [name]\<rparr>, heap, w')
      | (Inr b, w') \<Rightarrow>
          (case map_of (registered f) (Basis_Name b) of
             Some existingB \<Rightarrow> Some (Inr existingB, f\<lparr>subs := subs f @ [name]\<rparr>, heap, Basis_Close b w')
           | None \<Rightarrow>
               Some (Inr (length heap),
                     f\<lparr>subs := subs f @ [name],
                       registered := AList.update (Basis_Name b) (length heap) (registered f)\<rparr>,
                     heap @ [Basis_Closer (ClosePluginManager name) (Basis_Closer Deregister b)],
                     w')))"
proof -
  from assms(1) have u: "f\<lparr>subs := x, m := False\<rparr> = f\<lparr>subs := x\<rparr>"
    "f\<lparr>subs := x, registered := y, m := False\<rparr> = f\<lparr>subs := x, registered := y\<rparr>" for x y
    by (cases f, simp)+
  from assms have hit: "(if name \<noteq> [] then map_of (registered (f\<lparr>m := True\<rparr>)) name else None) = None"
    by auto
  obtain cr w1 where nb: "NewBasis opts (f\<lparr>m := True, subs := subs f @ [name]\<rparr>) name w = (cr, w1)"
    by (cases "NewBasis opts (f\<lparr>m := True, subs := subs f @ [name]\<rparr>) name w")
  show ?thesis
  proof (cases cr)
    case (Inl err)
    with nb assms(1) show ?thesis
      unfolding New_def Let_def hit by (simp add: u)
  next
    case (Inr cand)
    show ?thesis
    proof (cases "map_of (registered f) (Basis_Name cand)")
      case None
      with nb Inr assms(1) show ?thesis
        unfolding New_def Let_def hit by (simp add: u)
    next
      case (Some existingB)
      with nb Inr assms(1) show ?thesis
        unfolding New_def Let_def hit by (simp add: u)
    qed
  qed
qed

text \<open>
  C3. When the first lookup misses: if construction fails, the error is returned and
  neither the registry nor the heap changes; if the candidate's name is registered, the
  candidate is closed (the world is the one after its \<^verbatim>\<open>Close\<close>), it enters neither the
  registry nor the heap, and the registered pointer is returned. On every path a name
  that was registered stays bound to the same pointer.
\<close>

theorem New_failure_and_discard:
  assumes "\<not> m f"
  shows "((name = [] \<or> map_of (registered f) name = None) \<and>
          NewBasis opts (f\<lparr>m := True, subs := subs f @ [name]\<rparr>) name w = (Inl err, w')
          \<longrightarrow> New NewBasis Basis_Close name opts f heap w =
                Some (Inl err, f\<lparr>subs := subs f @ [name]\<rparr>, heap, w')) \<and>
         ((name = [] \<or> map_of (registered f) name = None) \<and>
          NewBasis opts (f\<lparr>m := True, subs := subs f @ [name]\<rparr>) name w = (Inr b, w') \<and>
          map_of (registered f) (Basis_Name b) = Some existingB
          \<longrightarrow> New NewBasis Basis_Close name opts f heap w =
                Some (Inr existingB, f\<lparr>subs := subs f @ [name]\<rparr>, heap, Basis_Close b w')) \<and>
         (\<forall>res f' heap' w2 n r.
            New NewBasis Basis_Close name opts f heap w = Some (res, f', heap', w2) \<and>
            map_of (registered f) n = Some r
            \<longrightarrow> map_of (registered f') n = Some r \<and> take (length heap) heap' = heap)"
proof (intro conjI impI allI)
  assume "(name = [] \<or> map_of (registered f) name = None) \<and>
          NewBasis opts (f\<lparr>m := True, subs := subs f @ [name]\<rparr>) name w = (Inl err, w')"
  then show "New NewBasis Basis_Close name opts f heap w =
                Some (Inl err, f\<lparr>subs := subs f @ [name]\<rparr>, heap, w')"
    using New_miss [OF assms, of name NewBasis Basis_Close opts heap w] by simp
next
  assume "(name = [] \<or> map_of (registered f) name = None) \<and>
          NewBasis opts (f\<lparr>m := True, subs := subs f @ [name]\<rparr>) name w = (Inr b, w') \<and>
          map_of (registered f) (Basis_Name b) = Some existingB"
  then show "New NewBasis Basis_Close name opts f heap w =
                Some (Inr existingB, f\<lparr>subs := subs f @ [name]\<rparr>, heap, Basis_Close b w')"
    using New_miss [OF assms, of name NewBasis Basis_Close opts heap w] by simp
next
  fix res f' heap' w2 n r
  assume a: "New NewBasis Basis_Close name opts f heap w = Some (res, f', heap', w2) \<and>
            map_of (registered f) n = Some r"
  then have new: "New NewBasis Basis_Close name opts f heap w = Some (res, f', heap', w2)"
    and reg: "map_of (registered f) n = Some r" by blast+
  have "map_of (registered f') n = Some r \<and> take (length heap) heap' = heap"
  proof (cases "name \<noteq> [] \<and> (\<exists>b. map_of (registered f) name = Some b)")
    case True
    then obtain b where "name \<noteq> []" "map_of (registered f) name = Some b" by blast
    from New_hit [OF assms this, of NewBasis Basis_Close opts heap w] new reg
    show ?thesis by simp
  next
    case False
    then have miss: "name = [] \<or> map_of (registered f) name = None" by auto
    obtain cr w1 where nb: "NewBasis opts (f\<lparr>m := True, subs := subs f @ [name]\<rparr>) name w = (cr, w1)"
      by (cases "NewBasis opts (f\<lparr>m := True, subs := subs f @ [name]\<rparr>) name w")
    show ?thesis
    proof (cases cr)
      case (Inl e)
      with New_miss [OF assms miss, of NewBasis Basis_Close opts heap w] nb new reg
      show ?thesis by auto
    next
      case (Inr cand)
      show ?thesis
      proof (cases "map_of (registered f) (Basis_Name cand)")
        case (Some ex)
        with New_miss [OF assms miss, of NewBasis Basis_Close opts heap w] nb Inr new reg
        show ?thesis by auto
      next
        case None
        with reg have "n \<noteq> Basis_Name cand" by auto
        with New_miss [OF assms miss, of NewBasis Basis_Close opts heap w] nb Inr None new reg
        show ?thesis by (auto simp: update_conv')
      qed
    qed
  qed
  then show "map_of (registered f') n = Some r" "take (length heap) heap' = heap" by simp_all
qed

theorem New_failure_and_discard_witness:
  "New example_NewBasis example_Basis_Close [] [''invalid''] example_factory [example_basis []] [] =
     Some (Inl (Failure ''invalid option''), example_factory\<lparr>subs := [''default'', []]\<rparr>,
           [example_basis []], [''NewBasis'']) \<and>
   New example_NewBasis example_Basis_Close [] [] example_factory [example_basis []] [] =
     Some (Inr 0, example_factory\<lparr>subs := [''default'', []]\<rparr>,
           [example_basis []], [''NewBasis'', ''Basis.Close default''])"
proof -
  have a: "\<not> m example_factory" by (simp add: example_factory_def)
  have s: "subs example_factory @ [[]] = [''default'', []]" by (simp add: example_factory_def)
  have r: "map_of (registered example_factory) ''default'' = Some 0" by (simp add: example_factory_def)
  from New_failure_and_discard [OF a, where name = "[]" and NewBasis = example_NewBasis
      and opts = "[''invalid'']" and w = "[]" and err = "Failure ''invalid option''"
      and w' = "[''NewBasis'']" and Basis_Close = example_Basis_Close and heap = "[example_basis []]"]
  have 1: "New example_NewBasis example_Basis_Close [] [''invalid''] example_factory [example_basis []] [] =
     Some (Inl (Failure ''invalid option''), example_factory\<lparr>subs := [''default'', []]\<rparr>,
           [example_basis []], [''NewBasis''])"
    by (simp add: example_NewBasis_def s)
  from New_failure_and_discard [OF a, where name = "[]" and NewBasis = example_NewBasis
      and opts = "[]" and w = "[]"
      and b = "(example_basis [])\<lparr>Basis_Name := ''default'', projects := []\<rparr>"
      and w' = "[''NewBasis'']" and Basis_Close = example_Basis_Close and heap = "[example_basis []]"
      and existingB = 0]
  have 2: "New example_NewBasis example_Basis_Close [] [] example_factory [example_basis []] [] =
     Some (Inr 0, example_factory\<lparr>subs := [''default'', []]\<rparr>,
           [example_basis []], [''NewBasis'', ''Basis.Close default''])"
    by (simp add: example_NewBasis_def s r example_Basis_Close_def)
  from 1 2 show ?thesis by simp
qed

text \<open>
  C10, as the code has it. \<^verbatim>\<open>New\<close> holds the mutex across construction: a call that
  finds the mutex held does not return; a call that does not end at the first lookup
  runs construction, with the options, in a state of the Factory in which the mutex is
  held, and what construction returns there decides the call; construction is never run
  in any other state, so two construction functions that agree wherever the mutex is
  held give the same call; and the mutex is free when the call returns.
\<close>

theorem New_holds_lock:
  "(m f \<longrightarrow> New NewBasis Basis_Close name opts f heap w = None) \<and>
   (\<forall>res f' heap' w'.
      New NewBasis Basis_Close name opts f heap w = Some (res, f', heap', w') \<longrightarrow> \<not> m f \<and> \<not> m f') \<and>
   ((\<forall>g. m g \<longrightarrow> NewBasis opts g name w = NewBasis' opts g name w)
    \<longrightarrow> New NewBasis Basis_Close name opts f heap w = New NewBasis' Basis_Close name opts f heap w) \<and>
   (\<not> m f \<and> (name = [] \<or> map_of (registered f) name = None)
    \<longrightarrow> m (f\<lparr>m := True, subs := subs f @ [name]\<rparr>) \<and>
        New NewBasis Basis_Close name opts f heap w =
          (case NewBasis opts (f\<lparr>m := True, subs := subs f @ [name]\<rparr>) name w of
             (Inl err, w') \<Rightarrow> Some (Inl err, f\<lparr>subs := subs f @ [name]\<rparr>, heap, w')
           | (Inr b, w') \<Rightarrow>
               (case map_of (registered f) (Basis_Name b) of
                  Some existingB \<Rightarrow>
                    Some (Inr existingB, f\<lparr>subs := subs f @ [name]\<rparr>, heap, Basis_Close b w')
                | None \<Rightarrow>
                    Some (Inr (length heap),
                          f\<lparr>subs := subs f @ [name],
                            registered := AList.update (Basis_Name b) (length heap) (registered f)\<rparr>,
                          heap @ [Basis_Closer (ClosePluginManager name) (Basis_Closer Deregister b)],
                          w'))))"
proof (intro conjI impI allI)
  assume "m f"
  then show "New NewBasis Basis_Close name opts f heap w = None" by (simp add: New_def)
next
  fix res f' heap' w'
  assume "New NewBasis Basis_Close name opts f heap w = Some (res, f', heap', w')"
  then show "\<not> m f" "\<not> m f'"
    by (auto simp: New_def Let_def split: if_splits prod.splits sum.splits option.splits)
next
  assume "\<forall>g. m g \<longrightarrow> NewBasis opts g name w = NewBasis' opts g name w"
  then have "NewBasis opts (f\<lparr>m := True, subs := subs f @ [name]\<rparr>) name w =
      NewBasis' opts (f\<lparr>m := True, subs := subs f @ [name]\<rparr>) name w"
    by simp
  then show "New NewBasis Basis_Close name opts f heap w = New NewBasis' Basis_Close name opts f heap w"
  proof (cases "m f")
    case True
    then show ?thesis by (simp add: New_def)
  next
    case free: False
    assume eq: "NewBasis opts (f\<lparr>m := True, subs := subs f @ [name]\<rparr>) name w =
      NewBasis' opts (f\<lparr>m := True, subs := subs f @ [name]\<rparr>) name w"
    show ?thesis
    proof (cases "name \<noteq> [] \<and> (\<exists>b. map_of (registered f) name = Some b)")
      case True
      then obtain b where h: "name \<noteq> []" "map_of (registered f) name = Some b" by blast
      show ?thesis
        by (simp add: New_hit [OF free h])
    next
      case False
      then have miss: "name = [] \<or> map_of (registered f) name = None" by auto
      show ?thesis
        by (simp add: New_miss [OF free miss] eq)
    qed
  qed
next
  show "m (f\<lparr>m := True, subs := subs f @ [name]\<rparr>)" by simp
next
  assume "\<not> m f \<and> (name = [] \<or> map_of (registered f) name = None)"
  then have free: "\<not> m f" and miss: "name = [] \<or> map_of (registered f) name = None" by simp_all
  show "New NewBasis Basis_Close name opts f heap w =
          (case NewBasis opts (f\<lparr>m := True, subs := subs f @ [name]\<rparr>) name w of
             (Inl err, w') \<Rightarrow> Some (Inl err, f\<lparr>subs := subs f @ [name]\<rparr>, heap, w')
           | (Inr b, w') \<Rightarrow>
               (case map_of (registered f) (Basis_Name b) of
                  Some existingB \<Rightarrow>
                    Some (Inr existingB, f\<lparr>subs := subs f @ [name]\<rparr>, heap, Basis_Close b w')
                | None \<Rightarrow>
                    Some (Inr (length heap),
                          f\<lparr>subs := subs f @ [name],
                            registered := AList.update (Basis_Name b) (length heap) (registered f)\<rparr>,
                          heap @ [Basis_Closer (ClosePluginManager name) (Basis_Closer Deregister b)],
                          w')))"
    by (rule New_miss [OF free miss])
qed

theorem New_holds_lock_witness:
  "New lock_probe example_Basis_Close ''env'' [] NewFactory [] [] =
     New (\<lambda>(opts :: string list) f name w. (Inl (Failure ''lock held''), w)) example_Basis_Close ''env'' [] NewFactory [] [] \<and>
   New example_NewBasis example_Basis_Close ''env'' [] (NewFactory\<lparr>m := True\<rparr>) [] [] = None \<and>
   \<not> m NewFactory \<and>
   New lock_probe example_Basis_Close ''env'' [] NewFactory [] [] =
     Some (Inl (Failure ''lock held''), NewFactory\<lparr>subs := [''env'']\<rparr>, [], []) \<and>
   New example_NewBasis example_Basis_Close ''env'' [] NewFactory [] [] =
     Some (Inr 0, \<lparr>m = False, subs = [''env''], registered = [(''env'', 0)]\<rparr>,
           [(example_basis [])\<lparr>Basis_Name := ''env'', projects := [],
                                 Basis_closers := [Deregister, ClosePluginManager ''env'']\<rparr>],
           [''NewBasis''])"
proof -
  have h: "\<forall>g. m g \<longrightarrow> lock_probe [] g ''env'' [] = (Inl (Failure ''lock held''), [])"
    by (simp add: lock_probe_def)
  have 1: "New lock_probe example_Basis_Close ''env'' [] NewFactory [] [] =
     New (\<lambda>(opts :: string list) f name w. (Inl (Failure ''lock held''), w)) example_Basis_Close ''env'' [] NewFactory [] []"
    using h New_holds_lock [where NewBasis = lock_probe
        and NewBasis' = "\<lambda>opts f name w. (Inl (Failure ''lock held''), w)"
        and opts = "[]" and name = "''env''" and w = "[]" and f = NewFactory and heap = "[]"
        and Basis_Close = example_Basis_Close]
    by blast
  from New_holds_lock [where NewBasis = example_NewBasis and f = "NewFactory\<lparr>m := True\<rparr>"
      and name = "''env''" and opts = "[]" and heap = "[]" and w = "[]" and Basis_Close = example_Basis_Close]
  have 2: "New example_NewBasis example_Basis_Close ''env'' [] (NewFactory\<lparr>m := True\<rparr>) [] [] = None"
    by simp
  have free: "\<not> m NewFactory" and miss: "map_of (registered NewFactory) ''env'' = None"
    by (simp_all add: NewFactory_def)
  from New_holds_lock [where NewBasis = lock_probe and f = NewFactory
      and name = "''env''" and opts = "[]" and heap = "[]" and w = "[]" and Basis_Close = example_Basis_Close]
    free miss
  have 3: "New lock_probe example_Basis_Close ''env'' [] NewFactory [] [] =
     Some (Inl (Failure ''lock held''), NewFactory\<lparr>subs := [''env'']\<rparr>, [], [])"
    by (simp add: lock_probe_def NewFactory_def)
  from New_holds_lock [where NewBasis = example_NewBasis and f = NewFactory
      and name = "''env''" and opts = "[]" and heap = "[]" and w = "[]" and Basis_Close = example_Basis_Close]
    free miss
  have 4: "New example_NewBasis example_Basis_Close ''env'' [] NewFactory [] [] =
     Some (Inr 0, \<lparr>m = False, subs = [''env''], registered = [(''env'', 0)]\<rparr>,
           [(example_basis [])\<lparr>Basis_Name := ''env'', projects := [],
                                 Basis_closers := [Deregister, ClosePluginManager ''env'']\<rparr>],
           [''NewBasis''])"
    by (simp add: example_NewBasis_def NewFactory_def Basis_Closer_def example_basis_def)
  from 1 2 3 4 free show ?thesis by simp
qed


text \<open>Construction observes the mutex held: the probe run by \<^verbatim>\<open>New\<close> on a fresh Factory reports it.\<close>

theorem New_lock_counterexample:
  "New lock_probe example_Basis_Close ''env'' [] NewFactory [] [] =
     Some (Inl (Failure ''lock held''), NewFactory\<lparr>subs := [''env'']\<rparr>, [], [])"
  by (simp add: New_def lock_probe_def NewFactory_def)

end
